theory Spec2Isabelle
  imports Complex_Main "HOL-Library.Finite_Map" "HOL-Library.Sublist"
begin

section \<open>JSONB values and the PostgreSQL built-ins used by the loader\<close>

text \<open>
  The loader of \<^verbatim>\<open>util/loader/sql.py\<close> is Python that sends SQL to PostgreSQL. The
  embedding gives each statement the meaning PostgreSQL gives it. A \<^verbatim>\<open>jsonb\<close> value is
  stored normalised (object keys unique, key order irrelevant), so an object is a
  finite map and equality of the datatype is equality of \<^verbatim>\<open>jsonb\<close>. Every column of
  the two tables is nullable, so a column value is an \<open>option\<close>, \<open>None\<close> being SQL NULL.
\<close>

datatype jsonb =
    JNull
  | JBool bool
  | JNumber rat
  | JString string
  | JArray "jsonb list"
  | JObject "(string, jsonb) fmap"

text \<open>
  Built-ins whose result depends on the server and not on this repository are taken
  as parameters: \<^verbatim>\<open>md5\<close>, the btree ordering of \<^verbatim>\<open>jsonb\<close> that
  \<^verbatim>\<open>jsonb_agg(DISTINCT x)\<close> sorts by (it depends on the collation), and the text
  output of a \<^verbatim>\<open>jsonb\<close> value.
\<close>

record postgres =
  md5 :: "string \<Rightarrow> string"
  jsonb_le :: "jsonb \<Rightarrow> jsonb \<Rightarrow> bool"
  jsonb_out :: "jsonb \<Rightarrow> string"

datatype sql_error = CardinalityViolation | CannotExtractElements

text \<open>\<^verbatim>\<open>COALESCE(a, b)\<close>: the first argument that is not NULL.\<close>

definition coalesce :: "'a option \<Rightarrow> 'a option \<Rightarrow> 'a option" where
  "coalesce a b = (case a of Some v \<Rightarrow> Some v | None \<Rightarrow> b)"

text \<open>\<^verbatim>\<open>a = b\<close> in a WHERE clause: true only when both sides are not NULL and equal.\<close>

definition sql_eq :: "'a option \<Rightarrow> 'a option \<Rightarrow> bool" where
  "sql_eq a b = (case (a, b) of (Some x, Some y) \<Rightarrow> x = y | _ \<Rightarrow> False)"

text \<open>
  \<^verbatim>\<open>jsonb_strip_nulls\<close> deletes every object field whose value is null, recursively
  (inside nested objects and inside arrays); null array elements stay.
\<close>

primrec jsonb_strip_nulls :: "jsonb \<Rightarrow> jsonb" where
  "jsonb_strip_nulls JNull = JNull"
| "jsonb_strip_nulls (JBool b) = JBool b"
| "jsonb_strip_nulls (JNumber n) = JNumber n"
| "jsonb_strip_nulls (JString s) = JString s"
| "jsonb_strip_nulls (JArray xs) = JArray (map jsonb_strip_nulls xs)"
| "jsonb_strip_nulls (JObject m) =
     JObject (fmfilter (\<lambda>k. fmlookup m k \<noteq> Some JNull) (fmmap jsonb_strip_nulls m))"

text \<open>
  \<^verbatim>\<open>a || b\<close> on \<^verbatim>\<open>jsonb\<close>: two objects give the union of their keys, the right
  operand winning on a shared key; in every other case a value that is not an array
  counts as a one-element array and the arrays are concatenated.
\<close>

fun as_array :: "jsonb \<Rightarrow> jsonb list" where
  "as_array (JArray xs) = xs"
| "as_array v = [v]"

fun jsonb_concat :: "jsonb \<Rightarrow> jsonb \<Rightarrow> jsonb" where
  "jsonb_concat (JObject a) (JObject b) = JObject (a ++\<^sub>f b)"
| "jsonb_concat a b = JArray (as_array a @ as_array b)"

text \<open>The operator is strict: NULL on either side gives NULL.\<close>

definition sql_concat :: "jsonb option \<Rightarrow> jsonb option \<Rightarrow> jsonb option" where
  "sql_concat a b =
     (case a of None \<Rightarrow> None
      | Some x \<Rightarrow> (case b of None \<Rightarrow> None | Some y \<Rightarrow> Some (jsonb_concat x y)))"

text \<open>
  \<^verbatim>\<open>jsonb_array_elements\<close> returns the elements of an array as rows and raises on an
  object or a scalar.
\<close>

fun jsonb_array_elements :: "jsonb \<Rightarrow> sql_error + jsonb list" where
  "jsonb_array_elements (JArray xs) = Inr xs"
| "jsonb_array_elements v = Inl CannotExtractElements"

text \<open>
  \<^verbatim>\<open>jsonb_agg(DISTINCT x)\<close>: NULL over no rows; otherwise the array of the distinct
  values, in the order of the sort that implements DISTINCT.
\<close>

fun insort_by :: "('a \<Rightarrow> 'a \<Rightarrow> bool) \<Rightarrow> 'a \<Rightarrow> 'a list \<Rightarrow> 'a list" where
  "insort_by le x [] = [x]"
| "insort_by le x (y # ys) = (if le x y then x # y # ys else y # insort_by le x ys)"

definition jsonb_agg_distinct :: "'a postgres_scheme \<Rightarrow> jsonb list \<Rightarrow> jsonb option" where
  "jsonb_agg_distinct pg xs =
     (if xs = [] then None
      else Some (JArray (foldr (insort_by (jsonb_le pg)) (remdups xs) [])))"

section \<open>The staging table and the image table\<close>

text \<open>
  \<^verbatim>\<open>create_loading_table\<close> gives the staging table its eighteen columns. The image
  table has the same columns and the four that \<^verbatim>\<open>upsert_records_to_image_table\<close>
  fills itself. A table is the list of its rows in physical (\<^verbatim>\<open>ctid\<close>) order.
\<close>

type_synonym timestamp = nat

record load_row =
  foreign_id :: "string option"
  landing_url :: "string option"
  direct_url :: "string option"
  thumbnail :: "string option"
  width :: "int option"
  height :: "int option"
  filesize :: "int option"
  license :: "string option"
  license_version :: "string option"
  creator :: "string option"
  creator_url :: "string option"
  title :: "string option"
  meta_data :: "jsonb option"
  tags :: "jsonb option"
  watermarked :: "bool option"
  provider :: "string option"
  source :: "string option"
  ingestion_type :: "string option"

record image_row = load_row +
  created_on :: "timestamp option"
  updated_on :: "timestamp option"
  last_synced :: "timestamp option"
  removed :: "bool option"

section \<open>Loading a file into the staging table\<close>

text \<open>
  The classes of the exceptions that the code raises or lets through; the last two
  are classes of errors of the database driver that the loader does not catch.
\<close>

datatype py_error =
    InvalidTextRepresentation
  | PyException
  | AssertionError
  | IndexError
  | AttributeError
  | TypeError
  | ValueError
  | JSONDecodeError
  | BadCopyFileFormat
  | SqlSyntaxError

text \<open>
  The functions of the Python library that the loader, the passes and the normaliser
  call are parameters: \<^verbatim>\<open>json.loads\<close>, the query of \<^verbatim>\<open>urlparse\<close> read by
  \<^verbatim>\<open>parse_qs\<close>, \<^verbatim>\<open>str\<close>, and the methods \<^verbatim>\<open>replace\<close>, \<^verbatim>\<open>strip\<close>, \<^verbatim>\<open>split\<close> and
  \<^verbatim>\<open>splitlines\<close> of a string; \<^verbatim>\<open>int\<close> of a string is \<open>None\<close> where Python raises
  \<^verbatim>\<open>ValueError\<close>.
\<close>

record python =
  json_loads :: "string \<Rightarrow> py_error + jsonb"
  urlparse_query :: "string \<Rightarrow> (string \<times> string list) list"
  str_of :: "jsonb \<Rightarrow> string"
  str_replace :: "string \<Rightarrow> string \<Rightarrow> string \<Rightarrow> string"
  str_strip :: "string \<Rightarrow> string"
  str_split :: "string \<Rightarrow> string \<Rightarrow> string list"
  str_splitlines :: "string \<Rightarrow> string list"
  int_of_str :: "string \<Rightarrow> int option"

text \<open>
  \<^verbatim>\<open>postgres.bulk_load\<close> runs \<^verbatim>\<open>COPY ... FROM\<close> on the file: the server parses the
  lines in order, stops at the first line it cannot parse, and then loads nothing; the
  driver raises the error of the server. An exception of the driver is its class and
  its message \<^verbatim>\<open>str(e)\<close>. The server's parser of one line is the parameter
  \<open>parse\<close>: it gives the row, or the exception that the server reports for this line
  when the line has a given number (from 1) in the file.
\<close>

type_synonym parser = "string \<Rightarrow> (int \<Rightarrow> py_error \<times> string) + load_row"

fun copy_from :: "parser \<Rightarrow> int \<Rightarrow> string list \<Rightarrow> (py_error \<times> string) + load_row list" where
  "copy_from parse n [] = Inr []"
| "copy_from parse n (l # ls) =
     (case parse l of
        Inl report \<Rightarrow> Inl (report n)
      | Inr r \<Rightarrow> (case copy_from parse (n + 1) ls of Inl e \<Rightarrow> Inl e | Inr rs \<Rightarrow> Inr (r # rs)))"

definition bulk_load :: "parser \<Rightarrow> string list \<Rightarrow> (py_error \<times> string) + load_row list" where
  "bulk_load parse tsv_file = copy_from parse 1 tsv_file"

text \<open>
  \<^verbatim>\<open>_get_malformed_row_in_file\<close>: the first line of the message that starts with
  \<^verbatim>\<open>COPY\<close>; the \<^verbatim>\<open>assert\<close> that there is one; then
  \<^verbatim>\<open>int(copy_error.split('line ')[1].split(',')[0])\<close>, where an index out of range
  raises \<^verbatim>\<open>IndexError\<close> and \<^verbatim>\<open>int\<close> raises \<^verbatim>\<open>ValueError\<close>.
\<close>

definition get_malformed_row_in_file :: "'a python_scheme \<Rightarrow> string \<Rightarrow> py_error + int" where
  "get_malformed_row_in_file py error_msg =
     (let error_list = str_splitlines py error_msg in
      case find (\<lambda>line. prefix ''COPY'' line) error_list of
        None \<Rightarrow> Inl AssertionError
      | Some copy_error \<Rightarrow>
          (case str_split py copy_error ''line '' of
             preceding # following # others \<Rightarrow>
               (case str_split py following '','' of
                  number # others \<Rightarrow>
                    (case int_of_str py number of
                       None \<Rightarrow> Inl ValueError
                     | Some line_number \<Rightarrow> Inr line_number)
                | [] \<Rightarrow> Inl IndexError)
           | _ \<Rightarrow> Inl IndexError))"

text \<open>
  \<^verbatim>\<open>_delete_malformed_row_in_file\<close>: a file is the list that \<^verbatim>\<open>readlines\<close> returns;
  every line is written back except the one with \<^verbatim>\<open>index + 1 == line_number\<close>.
\<close>

definition delete_malformed_row_in_file :: "string list \<Rightarrow> int \<Rightarrow> string list" where
  "delete_malformed_row_in_file lines line_number =
     map snd (filter (\<lambda>(index, line). int index + 1 \<noteq> line_number) (enumerate 0 lines))"

text \<open>
  \<^verbatim>\<open>_clean_intermediate_table_data\<close>: four \<^verbatim>\<open>DELETE ... WHERE column IS NULL\<close> and
  the self-join
  \<^verbatim>\<open>DELETE FROM t p1 USING t p2 WHERE p1.ctid < p2.ctid AND p1.provider = p2.provider AND p1.foreign_identifier = p2.foreign_identifier\<close>,
  which deletes a row \<open>p1\<close> when a row \<open>p2\<close> later in the table has the same key.
\<close>

definition delete_where_null :: "(load_row \<Rightarrow> 'a option) \<Rightarrow> load_row list \<Rightarrow> load_row list" where
  "delete_where_null column table = filter (\<lambda>r. column r \<noteq> None) table"

fun delete_duplicates :: "load_row list \<Rightarrow> load_row list" where
  "delete_duplicates [] = []"
| "delete_duplicates (p1 # later) =
     (if \<exists>p2 \<in> set later.
           sql_eq (provider p1) (provider p2) \<and> sql_eq (foreign_id p1) (foreign_id p2)
      then delete_duplicates later
      else p1 # delete_duplicates later)"

definition clean_intermediate_table_data :: "load_row list \<Rightarrow> load_row list" where
  "clean_intermediate_table_data table =
     delete_duplicates
       (delete_where_null foreign_id
         (delete_where_null landing_url
           (delete_where_null license
             (delete_where_null direct_url table))))"

text \<open>
  The loop of \<^verbatim>\<open>load_local_data_to_intermediate_table\<close>. Only an
  \<^verbatim>\<open>InvalidTextRepresentation\<close> is caught; its handler reads the line number from the
  message and deletes that line. Any other exception of \<^verbatim>\<open>bulk_load\<close>, and an
  exception raised in the handler, leaves the loop and the function. The \<^verbatim>\<open>finally\<close>
  clause lowers \<^verbatim>\<open>max_rows_to_skip\<close> after every attempt, failed or not. The result
  is the state of the loop (file, staging table, \<^verbatim>\<open>load_successful\<close>,
  \<^verbatim>\<open>max_rows_to_skip\<close>) and the exception that left the loop, if any.
\<close>

function load_loop ::
  "'a python_scheme \<Rightarrow> parser \<Rightarrow> string list \<Rightarrow> load_row list \<Rightarrow> bool \<Rightarrow> int
   \<Rightarrow> (string list \<times> load_row list \<times> bool \<times> int) \<times> py_error option" where
  "load_loop py parse tsv_file table load_successful max_rows_to_skip =
     (if \<not> load_successful \<and> max_rows_to_skip \<ge> 0
      then (case bulk_load parse tsv_file of
              Inr rows \<Rightarrow> load_loop py parse tsv_file (table @ rows) True (max_rows_to_skip - 1)
            | Inl (e, error_msg) \<Rightarrow>
                if e = InvalidTextRepresentation
                then (case get_malformed_row_in_file py error_msg of
                        Inl raised \<Rightarrow>
                          ((tsv_file, table, False, max_rows_to_skip - 1), Some raised)
                      | Inr line_number \<Rightarrow>
                          load_loop py parse (delete_malformed_row_in_file tsv_file line_number)
                            table False (max_rows_to_skip - 1))
                else ((tsv_file, table, False, max_rows_to_skip - 1), Some e))
      else ((tsv_file, table, load_successful, max_rows_to_skip), None))"
  by pat_completeness auto
termination
  by (relation "measure (\<lambda>(py, parse, tsv_file, table, load_successful, max_rows_to_skip).
        nat (max_rows_to_skip + 1))") auto

declare load_loop.simps [simp del]

text \<open>
  The result is the file as the call leaves it, and either the exception raised or
  the staging table after the load and the cleaning.
\<close>

definition load_local_data_to_intermediate_table ::
  "'a python_scheme \<Rightarrow> parser \<Rightarrow> string list \<Rightarrow> int
   \<Rightarrow> string list \<times> (py_error + load_row list)" where
  "load_local_data_to_intermediate_table py parse tsv_file max_rows_to_skip =
     (case load_loop py parse tsv_file [] False max_rows_to_skip of
        ((tsv_file', table, load_successful, _), Some raised) \<Rightarrow> (tsv_file', Inl raised)
      | ((tsv_file', table, load_successful, _), None) \<Rightarrow>
          if \<not> load_successful then (tsv_file', Inl InvalidTextRepresentation)
          else (tsv_file', Inr (clean_intermediate_table_data table)))"

section \<open>Upsert into the image table\<close>

text \<open>\<^verbatim>\<open>_newest_non_null\<close>: \<^verbatim>\<open>column = COALESCE(EXCLUDED.column, old.column)\<close>.\<close>

definition newest_non_null :: "'a option \<Rightarrow> 'a option \<Rightarrow> 'a option" where
  "newest_non_null excluded old = coalesce excluded old"

text \<open>
  \<^verbatim>\<open>_merge_jsonb_objects\<close>:
  \<^verbatim>\<open>COALESCE(jsonb_strip_nulls(old.c) || jsonb_strip_nulls(EXCLUDED.c), EXCLUDED.c, old.c)\<close>.
\<close>

definition merge_jsonb_objects :: "jsonb option \<Rightarrow> jsonb option \<Rightarrow> jsonb option" where
  "merge_jsonb_objects old excluded =
     coalesce
       (sql_concat (map_option jsonb_strip_nulls old) (map_option jsonb_strip_nulls excluded))
       (coalesce excluded old)"

text \<open>
  \<^verbatim>\<open>_merge_jsonb_arrays\<close>:
  \<^verbatim>\<open>COALESCE((SELECT jsonb_agg(DISTINCT x) FROM jsonb_array_elements(old.c || EXCLUDED.c) t(x)), EXCLUDED.c, old.c)\<close>.
  The set-returning function is strict, so a NULL argument gives no rows.
\<close>

definition merge_jsonb_arrays ::
  "'a postgres_scheme \<Rightarrow> jsonb option \<Rightarrow> jsonb option \<Rightarrow> sql_error + jsonb option" where
  "merge_jsonb_arrays pg old excluded =
     (case sql_concat old excluded of
        None \<Rightarrow> Inr (coalesce (jsonb_agg_distinct pg []) (coalesce excluded old))
      | Some v \<Rightarrow>
          (case jsonb_array_elements v of
             Inl e \<Rightarrow> Inl e
           | Inr xs \<Rightarrow> Inr (coalesce (jsonb_agg_distinct pg xs) (coalesce excluded old))))"

text \<open>
  The row that \<^verbatim>\<open>INSERT ... SELECT ... FROM load_table\<close> proposes for a staging row:
  the staging columns, \<^verbatim>\<open>NOW()\<close> in the three timestamps and \<^verbatim>\<open>'f'\<close> in
  \<^verbatim>\<open>removed\<close>.
\<close>

definition insert_row :: "timestamp \<Rightarrow> load_row \<Rightarrow> image_row" where
  "insert_row now r =
     \<lparr> foreign_id = foreign_id r, landing_url = landing_url r, direct_url = direct_url r,
       thumbnail = thumbnail r, width = width r, height = height r, filesize = filesize r,
       license = license r, license_version = license_version r, creator = creator r,
       creator_url = creator_url r, title = title r, meta_data = meta_data r, tags = tags r,
       watermarked = watermarked r, provider = provider r, source = source r,
       ingestion_type = ingestion_type r,
       created_on = Some now, updated_on = Some now, last_synced = Some now,
       removed = Some False \<rparr>"

text \<open>
  The \<^verbatim>\<open>DO UPDATE SET\<close> list applied to the conflicting row \<open>old\<close> with the proposed
  row \<open>excluded\<close>. Columns that the list does not name (\<^verbatim>\<open>created_on\<close>,
  \<^verbatim>\<open>provider\<close>, \<^verbatim>\<open>foreign_identifier\<close>) keep their value.
\<close>

definition do_update ::
  "'a postgres_scheme \<Rightarrow> timestamp \<Rightarrow> image_row \<Rightarrow> load_row \<Rightarrow> sql_error + image_row" where
  "do_update pg now old excluded =
     (case merge_jsonb_arrays pg (tags old) (tags excluded) of
        Inl e \<Rightarrow> Inl e
      | Inr merged_tags \<Rightarrow>
          Inr (old\<lparr>
            updated_on := Some now,
            last_synced := Some now,
            removed := Some False,
            ingestion_type := newest_non_null (ingestion_type excluded) (ingestion_type old),
            source := newest_non_null (source excluded) (source old),
            landing_url := newest_non_null (landing_url excluded) (landing_url old),
            direct_url := newest_non_null (direct_url excluded) (direct_url old),
            thumbnail := newest_non_null (thumbnail excluded) (thumbnail old),
            width := newest_non_null (width excluded) (width old),
            height := newest_non_null (height excluded) (height old),
            filesize := newest_non_null (filesize excluded) (filesize old),
            license := newest_non_null (license excluded) (license old),
            license_version := newest_non_null (license_version excluded) (license_version old),
            creator := newest_non_null (creator excluded) (creator old),
            creator_url := newest_non_null (creator_url excluded) (creator_url old),
            title := newest_non_null (title excluded) (title old),
            watermarked := newest_non_null (watermarked excluded) (watermarked old),
            meta_data := merge_jsonb_objects (meta_data old) (meta_data excluded),
            tags := merged_tags\<rparr>))"

text \<open>
  The arbiter of \<^verbatim>\<open>ON CONFLICT (provider, md5(foreign_identifier))\<close> is a unique
  index. A key with a NULL part conflicts with nothing.
\<close>

definition index_key :: "'a postgres_scheme \<Rightarrow> 'b load_row_scheme \<Rightarrow> (string \<times> string) option" where
  "index_key pg r =
     (case provider r of
        None \<Rightarrow> None
      | Some p \<Rightarrow> (case foreign_id r of None \<Rightarrow> None | Some f \<Rightarrow> Some (p, md5 pg f)))"

text \<open>The update of the row that holds key \<open>k\<close> (the index allows at most one).\<close>

fun update_conflicting ::
  "'a postgres_scheme \<Rightarrow> timestamp \<Rightarrow> string \<times> string \<Rightarrow> load_row \<Rightarrow> image_row list
   \<Rightarrow> sql_error + image_row list" where
  "update_conflicting pg now k r [] = Inr []"
| "update_conflicting pg now k r (old # rest) =
     (if index_key pg old = Some k
      then (case do_update pg now old r of
              Inl e \<Rightarrow> Inl e
            | Inr new \<Rightarrow>
                (case update_conflicting pg now k r rest of
                   Inl e \<Rightarrow> Inl e
                 | Inr rest' \<Rightarrow> Inr (new # rest')))
      else (case update_conflicting pg now k r rest of
              Inl e \<Rightarrow> Inl e
            | Inr rest' \<Rightarrow> Inr (old # rest')))"

text \<open>
  One \<^verbatim>\<open>INSERT ... ON CONFLICT DO UPDATE\<close> statement over the staging rows in scan
  order. \<open>touched\<close> holds the keys this statement has inserted or updated: a second
  proposed row with such a key makes PostgreSQL abort the statement ("ON CONFLICT DO
  UPDATE command cannot affect row a second time").
\<close>

fun upsert_rows ::
  "'a postgres_scheme \<Rightarrow> timestamp \<Rightarrow> load_row list \<Rightarrow> (string \<times> string) list
   \<Rightarrow> image_row list \<Rightarrow> sql_error + image_row list" where
  "upsert_rows pg now [] touched img = Inr img"
| "upsert_rows pg now (r # rs) touched img =
     (case index_key pg r of
        None \<Rightarrow> upsert_rows pg now rs touched (img @ [insert_row now r])
      | Some k \<Rightarrow>
          if k \<in> set touched then Inl CardinalityViolation
          else if \<exists>old \<in> set img. index_key pg old = Some k
          then (case update_conflicting pg now k r img of
                  Inl e \<Rightarrow> Inl e
                | Inr img' \<Rightarrow> upsert_rows pg now rs (k # touched) img')
          else upsert_rows pg now rs (k # touched) (img @ [insert_row now r]))"

definition upsert_records_to_image_table ::
  "'a postgres_scheme \<Rightarrow> timestamp \<Rightarrow> load_row list \<Rightarrow> image_row list
   \<Rightarrow> sql_error + image_row list" where
  "upsert_records_to_image_table pg now load_table img = upsert_rows pg now load_table [] img"

section \<open>Sub-provider reclassification\<close>

text \<open>
  The three passes read the image table with one \<^verbatim>\<open>SELECT\<close> and then run one
  \<^verbatim>\<open>UPDATE\<close> for each selected record. The tables of \<^verbatim>\<open>provider_details\<close> (the
  sub-providers and the default provider names) are parameters; a Python dictionary is
  the list of its items, a Python set the list of its elements.
\<close>

text \<open>An f-string prints \<^verbatim>\<open>None\<close> for a NULL that the query returned.\<close>

definition py_format :: "string option \<Rightarrow> string" where
  "py_format v = (case v of None \<Rightarrow> ''None'' | Some s \<Rightarrow> s)"

text \<open>
  The statements are f-strings: a value is pasted between two quotes into the text
  that \<^verbatim>\<open>dedent\<close> then strips of its margin. The piece between the quotes is a string
  literal that denotes the pasted value when the value holds no quote (which would end
  the literal), no backslash (an escape when \<^verbatim>\<open>standard_conforming_strings\<close> is off),
  no line feed (\<^verbatim>\<open>dedent\<close> removes blanks after it) and no NUL. The \<^verbatim>\<open>SELECT\<close> of
  a pass and the \<^verbatim>\<open>INSERT\<close>s of its temporary table paste only names of
  \<^verbatim>\<open>provider_details\<close> and are given the meaning they have for such names; every
  \<^verbatim>\<open>UPDATE\<close> also pastes a foreign identifier read from the image table, which can be
  any text.
\<close>

definition plain :: "string \<Rightarrow> bool" where
  "plain s \<longleftrightarrow>
     CHR 0x27 \<notin> set s \<and> CHR 0x5C \<notin> set s \<and> CHR 0x0A \<notin> set s \<and> CHR 0x00 \<notin> set s"

text \<open>
  \<^verbatim>\<open>UPDATE image SET source = '{sub_provider}' WHERE image.provider = '{default_provider}' AND MD5(image.foreign_identifier) = MD5('{foreign_id}')\<close>,
  on the values that the three literals denote.
\<close>

definition set_source ::
  "'a postgres_scheme \<Rightarrow> string \<Rightarrow> string option \<Rightarrow> string \<Rightarrow> image_row list \<Rightarrow> image_row list" where
  "set_source pg default_provider fid sub_provider img =
     map (\<lambda>row.
            if sql_eq (provider row) (Some default_provider)
               \<and> sql_eq (map_option (md5 pg) (foreign_id row)) (Some (md5 pg (py_format fid)))
            then row\<lparr> source := Some sub_provider \<rparr>
            else row) img"

text \<open>
  When one of the three pasted values is not plain the text is another statement, or
  no statement at all: what \<^verbatim>\<open>postgres.run\<close> then does with it (the exception it
  raises, or the table it leaves) is the parameter \<open>run_interpolated\<close> of the server,
  given the three pasted values. A statement that raises changes nothing.
\<close>

record postgres_hook = postgres +
  run_interpolated :: "string \<Rightarrow> string \<Rightarrow> string \<Rightarrow> image_row list \<Rightarrow> py_error + image_row list"

definition update_source ::
  "'a postgres_hook_scheme \<Rightarrow> string \<Rightarrow> string option \<Rightarrow> string \<Rightarrow> image_row list
   \<Rightarrow> py_error + image_row list" where
  "update_source pg default_provider fid sub_provider img =
     (if plain sub_provider \<and> plain default_provider \<and> plain (py_format fid)
      then Inr (set_source pg default_provider fid sub_provider img)
      else run_interpolated pg sub_provider default_provider (py_format fid) img)"





text \<open>
  The \<^verbatim>\<open>jsonb\<close> operators of the two other passes: \<^verbatim>\<open>-> 'key'\<close> (the field of an
  object, NULL otherwise), \<^verbatim>\<open>->> 'key'\<close> (the field as text: a string without its
  quotes, NULL for a JSON null, the text output otherwise) and \<^verbatim>\<open>? 'text'\<close> (the text
  is a key of the object, a string element of the array, or the string itself).
\<close>

definition jsonb_field :: "jsonb option \<Rightarrow> string \<Rightarrow> jsonb option" where
  "jsonb_field v key = (case v of Some (JObject m) \<Rightarrow> fmlookup m key | _ \<Rightarrow> None)"

definition jsonb_field_text :: "'a postgres_scheme \<Rightarrow> jsonb option \<Rightarrow> string \<Rightarrow> string option" where
  "jsonb_field_text pg v key =
     (case jsonb_field v key of
        None \<Rightarrow> None
      | Some JNull \<Rightarrow> None
      | Some (JString s) \<Rightarrow> Some s
      | Some x \<Rightarrow> Some (jsonb_out pg x))"

definition jsonb_exists :: "jsonb option \<Rightarrow> string \<Rightarrow> bool" where
  "jsonb_exists v key =
     (case v of
        Some (JObject m) \<Rightarrow> fmlookup m key \<noteq> None
      | Some (JArray xs) \<Rightarrow> JString key \<in> set xs
      | Some (JString s) \<Rightarrow> s = key
      | _ \<Rightarrow> False)"

text \<open>\<^verbatim>\<open>_create_temp_europeana_sub_prov_table\<close>: one row (data_provider, sub_provider).\<close>

definition create_temp_europeana_sub_prov_table ::
  "(string \<times> string) list \<Rightarrow> (string \<times> string) list" where
  "create_temp_europeana_sub_prov_table sub_providers =
     map (\<lambda>(sub_prov, data_provider). (data_provider, sub_prov)) sub_providers"

text \<open>
  The join of \<^verbatim>\<open>update_europeana_sub_providers\<close>: the rows of the default provider
  whose \<^verbatim>\<open>meta_data -> 'dataProvider'\<close> holds a data provider of the table; a record
  is (foreign_id, data_providers as text, sub_provider).
\<close>

definition europeana_select ::
  "'a postgres_scheme \<Rightarrow> string \<Rightarrow> (string \<times> string) list \<Rightarrow> image_row list
   \<Rightarrow> (string option \<times> string option \<times> string) list" where
  "europeana_select pg default_provider temp_table img =
     concat (map (\<lambda>row.
                    map (\<lambda>(data_provider, sub_provider).
                           (foreign_id row,
                            jsonb_field_text pg (meta_data row) ''dataProvider'',
                            sub_provider))
                      (filter (\<lambda>(data_provider, sub_provider).
                                 jsonb_exists (jsonb_field (meta_data row) ''dataProvider'')
                                   data_provider)
                              temp_table))
                 (filter (\<lambda>row. sql_eq (provider row) (Some default_provider)) img))"

text \<open>
  Python's \<^verbatim>\<open>x in v\<close> for a string \<open>x\<close> and a decoded JSON value: an element of a
  list, a key of a dictionary, a substring of a string; a \<^verbatim>\<open>TypeError\<close> otherwise.
\<close>

definition py_in :: "string \<Rightarrow> jsonb \<Rightarrow> py_error + bool" where
  "py_in x v =
     (case v of
        JArray xs \<Rightarrow> Inr (JString x \<in> set xs)
      | JObject m \<Rightarrow> Inr (fmlookup m x \<noteq> None)
      | JString s \<Rightarrow> Inr (sublist x s)
      | _ \<Rightarrow> Inl TypeError)"

text \<open>
  \<^verbatim>\<open>{s for s in sub_providers if sub_providers[s] in data_providers}\<close>, the keys in the
  order of the dictionary.
\<close>

fun eligible_sub_providers :: "(string \<times> string) list \<Rightarrow> jsonb \<Rightarrow> py_error + string list" where
  "eligible_sub_providers [] data_providers = Inr []"
| "eligible_sub_providers ((s, data_provider) # rest) data_providers =
     (case py_in data_provider data_providers of
        Inl e \<Rightarrow> Inl e
      | Inr holds \<Rightarrow>
          (case eligible_sub_providers rest data_providers of
             Inl e \<Rightarrow> Inl e
           | Inr es \<Rightarrow> Inr (if holds then s # es else es)))"

text \<open>
  What the loop of \<^verbatim>\<open>update_europeana_sub_providers\<close> does with one record before its
  \<^verbatim>\<open>UPDATE\<close>: \<^verbatim>\<open>json.loads\<close>, the set of eligible sub-providers, the exception for
  more than one, and the two assertions. \<open>None\<close>: the record passes.
\<close>

definition europeana_check ::
  "'a python_scheme \<Rightarrow> (string \<times> string) list \<Rightarrow> string option \<times> string option \<times> string
   \<Rightarrow> py_error option" where
  "europeana_check py sub_providers selected =
     (case selected of (fid, data_providers_text, sub_provider) \<Rightarrow>
        (case (case data_providers_text of None \<Rightarrow> Inl TypeError | Some t \<Rightarrow> json_loads py t) of
           Inl e \<Rightarrow> Some e
         | Inr data_providers \<Rightarrow>
             (case eligible_sub_providers sub_providers data_providers of
                Inl e \<Rightarrow> Some e
              | Inr es \<Rightarrow>
                  if length (remdups es) > 1 then Some PyException
                  else if length (remdups es) \<noteq> 1 then Some AssertionError
                  else if remdups es \<noteq> [sub_provider] then Some AssertionError
                  else None)))"

fun europeana_loop ::
  "'a postgres_hook_scheme \<Rightarrow> 'b python_scheme \<Rightarrow> string \<Rightarrow> (string \<times> string) list
   \<Rightarrow> (string option \<times> string option \<times> string) list \<Rightarrow> image_row list
   \<Rightarrow> image_row list \<times> py_error option" where
  "europeana_loop pg py default_provider sub_providers [] img = (img, None)"
| "europeana_loop pg py default_provider sub_providers (selected # rest) img =
     (case europeana_check py sub_providers selected of
        Some e \<Rightarrow> (img, Some e)
      | None \<Rightarrow>
          (case update_source pg default_provider (fst selected) (snd (snd selected)) img of
             Inl e \<Rightarrow> (img, Some e)
           | Inr img' \<Rightarrow> europeana_loop pg py default_provider sub_providers rest img'))"

definition update_europeana_sub_providers ::
  "'a postgres_hook_scheme \<Rightarrow> 'b python_scheme \<Rightarrow> string \<Rightarrow> (string \<times> string) list \<Rightarrow> image_row list
   \<Rightarrow> image_row list \<times> py_error option" where
  "update_europeana_sub_providers pg py default_provider sub_providers img =
     europeana_loop pg py default_provider sub_providers
       (europeana_select pg default_provider
          (create_temp_europeana_sub_prov_table sub_providers) img)
       img"

text \<open>
  \<^verbatim>\<open>update_smithsonian_sub_providers\<close> selects the rows whose provider and source are
  both the default provider, with \<^verbatim>\<open>meta_data ->> 'unit_code'\<close>.
\<close>

definition smithsonian_select ::
  "'a postgres_scheme \<Rightarrow> string \<Rightarrow> image_row list \<Rightarrow> (string option \<times> string option) list" where
  "smithsonian_select pg default_provider img =
     map (\<lambda>row. (foreign_id row, jsonb_field_text pg (meta_data row) ''unit_code''))
       (filter (\<lambda>row. sql_eq (provider row) (Some default_provider)
                     \<and> sql_eq (source row) (Some default_provider)) img)"

text \<open>
  \<^verbatim>\<open>next((s for s in sub_providers if unit_code in sub_providers[s]), None)\<close>; a NULL
  unit code is \<^verbatim>\<open>None\<close>, which is in no set of codes.
\<close>

definition find_source :: "(string \<times> string list) list \<Rightarrow> string option \<Rightarrow> string option" where
  "find_source sub_providers unit_code =
     (case unit_code of
        None \<Rightarrow> None
      | Some u \<Rightarrow> map_option fst (find (\<lambda>(s, unit_codes). u \<in> set unit_codes) sub_providers))"

fun smithsonian_loop ::
  "'a postgres_hook_scheme \<Rightarrow> string \<Rightarrow> (string \<times> string list) list
   \<Rightarrow> (string option \<times> string option) list \<Rightarrow> image_row list
   \<Rightarrow> image_row list \<times> py_error option" where
  "smithsonian_loop pg default_provider sub_providers [] img = (img, None)"
| "smithsonian_loop pg default_provider sub_providers ((fid, unit_code) # rest) img =
     (case find_source sub_providers unit_code of
        None \<Rightarrow> (img, Some PyException)
      | Some src \<Rightarrow>
          (case update_source pg default_provider fid src img of
             Inl e \<Rightarrow> (img, Some e)
           | Inr img' \<Rightarrow> smithsonian_loop pg default_provider sub_providers rest img'))"

definition update_smithsonian_sub_providers ::
  "'a postgres_hook_scheme \<Rightarrow> string \<Rightarrow> (string \<times> string list) list \<Rightarrow> image_row list
   \<Rightarrow> image_row list \<times> py_error option" where
  "update_smithsonian_sub_providers pg default_provider sub_providers img =
     smithsonian_loop pg default_provider sub_providers
       (smithsonian_select pg default_provider img) img"

section \<open>The RawPixel normaliser\<close>

text \<open>
  \<^verbatim>\<open>provider_api_scripts/raw_pixel.py\<close>. A payload is the dictionary decoded from the
  JSON response: a finite map from keys to JSON values, Python's \<^verbatim>\<open>None\<close> being the
  JSON null. \<^verbatim>\<open>image.get(key, default)\<close> and the truth value Python gives a value:
\<close>

definition py_get :: "(string, jsonb) fmap \<Rightarrow> string \<Rightarrow> jsonb \<Rightarrow> jsonb" where
  "py_get image_data key dflt = (case fmlookup image_data key of None \<Rightarrow> dflt | Some v \<Rightarrow> v)"

fun truthy :: "jsonb \<Rightarrow> bool" where
  "truthy JNull = False"
| "truthy (JBool b) = b"
| "truthy (JNumber n) = (n \<noteq> 0)"
| "truthy (JString s) = (s \<noteq> [])"
| "truthy (JArray xs) = (xs \<noteq> [])"
| "truthy (JObject m) = (m \<noteq> fmempty)"

definition get_foreign_id_url :: "(string, jsonb) fmap \<Rightarrow> jsonb \<times> jsonb" where
  "get_foreign_id_url image_data =
     (if truthy (py_get image_data ''freecc0'' JNull)
      then (py_get image_data ''id'' (JString []), py_get image_data ''url'' JNull)
      else (JNull, JNull))"

text \<open>
  \<^verbatim>\<open>parse_qs(query_params.query).get(key, [])[0]\<close>: the index raises \<^verbatim>\<open>IndexError\<close> on
  the empty default.
\<close>

definition first_query_value :: "(string \<times> string list) list \<Rightarrow> string \<Rightarrow> py_error + string" where
  "first_query_value query key =
     (case (case map_of query key of None \<Rightarrow> [] | Some vs \<Rightarrow> vs) of
        [] \<Rightarrow> Inl IndexError
      | v # rest \<Rightarrow> Inr v)"

text \<open>
  \<^verbatim>\<open>_get_image_properties\<close>. \<^verbatim>\<open>urlparse\<close> raises \<^verbatim>\<open>AttributeError\<close> on a value that
  is true and not a string.
\<close>

definition get_image_properties ::
  "'a python_scheme \<Rightarrow> (string, jsonb) fmap \<Rightarrow> jsonb
   \<Rightarrow> py_error + jsonb \<times> jsonb \<times> jsonb \<times> jsonb" where
  "get_image_properties py image_data foreign_url =
     (let img_url = py_get image_data ''image_opengraph'' JNull in
      if truthy img_url
      then (case img_url of
              JString u \<Rightarrow>
                (case first_query_value (urlparse_query py u) ''w'' of
                   Inl e \<Rightarrow> Inl e
                 | Inr w \<Rightarrow>
                     (case first_query_value (urlparse_query py u) ''h'' of
                        Inl e \<Rightarrow> Inl e
                      | Inr h \<Rightarrow>
                          Inr (img_url, JString w, JString h,
                               py_get image_data ''image_400'' (JString []))))
            | _ \<Rightarrow> Inl AttributeError)
      else Inr (JNull, JNull, JNull, JNull))"

text \<open>
  \<^verbatim>\<open>_get_title_owner\<close> and \<^verbatim>\<open>_get_tags\<close>: \<^verbatim>\<open>replace\<close>, \<^verbatim>\<open>strip\<close> and \<^verbatim>\<open>split\<close> are
  methods of strings only.
\<close>

definition get_title_owner ::
  "'a python_scheme \<Rightarrow> (string, jsonb) fmap \<Rightarrow> py_error + jsonb \<times> string" where
  "get_title_owner py image_data =
     (let img_title = py_get image_data ''image_title'' (JString []);
          owner = py_get image_data ''artist_names'' (JString [])
      in case owner of
           JString s \<Rightarrow> Inr (img_title, str_strip py (str_replace py ''(Source)'' [] s))
         | _ \<Rightarrow> Inl AttributeError)"

definition get_tags :: "'a python_scheme \<Rightarrow> (string, jsonb) fmap \<Rightarrow> py_error + string list" where
  "get_tags py image_data =
     (let keywords = py_get image_data ''keywords_raw'' JNull in
      if truthy keywords
      then (case keywords of
              JString s \<Rightarrow>
                Inr (map (str_strip py)
                      (filter (\<lambda>word. str_strip py word
                                 \<notin> set [''cc0'', ''creative commons'', ''creative commons 0''])
                              (str_split py s '','')))
            | _ \<Rightarrow> Inl AttributeError)
      else Inr [])"

text \<open>The keyword arguments of \<^verbatim>\<open>image_store.add_item\<close>; the store is a parameter.\<close>

record item =
  item_foreign_landing_url :: jsonb
  item_image_url :: jsonb
  item_license :: string
  item_license_version :: string
  item_foreign_identifier :: string
  item_width :: "string option"
  item_height :: "string option"
  item_title :: jsonb
  item_raw_tags :: "string list"
  item_creator :: string
  item_thumbnail_url :: jsonb

text \<open>
  \<^verbatim>\<open>_process_image_data\<close>: \<open>Inr None\<close> is the return of \<^verbatim>\<open>None\<close>, \<open>Inr (Some n)\<close> the
  return of the store, \<open>Inl e\<close> a raised exception.
\<close>

definition process_image_data ::
  "'a python_scheme \<Rightarrow> (item \<Rightarrow> 'r) \<Rightarrow> (string, jsonb) fmap \<Rightarrow> py_error + 'r option" where
  "process_image_data py add_item image_data =
     (case get_foreign_id_url image_data of
        (img_foreign_id, foreign_url) \<Rightarrow>
          if \<not> truthy foreign_url then Inr None
          else (case get_image_properties py image_data foreign_url of
                  Inl e \<Rightarrow> Inl e
                | Inr (img_url, img_width, img_height, img_thumbnail) \<Rightarrow>
                    if \<not> truthy img_url then Inr None
                    else (case get_title_owner py image_data of
                            Inl e \<Rightarrow> Inl e
                          | Inr (img_title, owner) \<Rightarrow>
                              (case get_tags py image_data of
                                 Inl e \<Rightarrow> Inl e
                               | Inr raw_tags \<Rightarrow>
                                   Inr (Some (add_item
                                     \<lparr> item_foreign_landing_url = foreign_url,
                                       item_image_url = img_url,
                                       item_license = ''cc0'',
                                       item_license_version = ''1.0'',
                                       item_foreign_identifier = str_of py img_foreign_id,
                                       item_width =
                                         (if truthy img_width then Some (str_of py img_width)
                                          else None),
                                       item_height =
                                         (if truthy img_height then Some (str_of py img_height)
                                          else None),
                                       item_title =
                                         (if truthy img_title then img_title else JNull),
                                       item_raw_tags = raw_tags,
                                       item_creator = owner,
                                       item_thumbnail_url = img_thumbnail \<rparr>))))))"

section \<open>Notions used to state what a second upsert does\<close>

text \<open>
  The data model of the specification types the two \<^verbatim>\<open>jsonb\<close> columns: the
  metadata is a JSON object and the tags are a JSON array (or SQL NULL). The columns
  themselves accept any \<^verbatim>\<open>jsonb\<close> value, so the typing is a hypothesis where a
  statement needs it.
\<close>

fun array_or_null :: "jsonb option \<Rightarrow> bool" where
  "array_or_null None = True"
| "array_or_null (Some (JArray xs)) = True"
| "array_or_null (Some v) = False"

fun object_or_null :: "jsonb option \<Rightarrow> bool" where
  "object_or_null None = True"
| "object_or_null (Some (JObject m)) = True"
| "object_or_null (Some v) = False"

definition typed_columns :: "'a load_row_scheme \<Rightarrow> bool" where
  "typed_columns r = (object_or_null (meta_data r) \<and> array_or_null (tags r))"

text \<open>
  The row a successful \<^verbatim>\<open>DO UPDATE\<close> leaves, and the relation between a row and the
  same row after a second merge of the same staging row: every column equal except
  the two timestamps, the metadata either equal or replaced by its null-stripped
  form, and the tags either equal or replaced by an array of the same elements
  without duplicates.
\<close>

definition updated_row :: "'a postgres_scheme \<Rightarrow> timestamp \<Rightarrow> image_row \<Rightarrow> load_row \<Rightarrow> image_row" where
  "updated_row pg now old excluded =
     (case do_update pg now old excluded of Inr new \<Rightarrow> new | Inl e \<Rightarrow> old)"

definition resynced :: "image_row \<Rightarrow> image_row \<Rightarrow> bool" where
  "resynced c c' \<longleftrightarrow>
     c'\<lparr> updated_on := updated_on c, last_synced := last_synced c,
         meta_data := meta_data c, tags := tags c \<rparr> = c
     \<and> (meta_data c' = meta_data c
          \<or> meta_data c' = map_option jsonb_strip_nulls (meta_data c))
     \<and> (tags c' = tags c
          \<or> (\<exists>xs zs. tags c = Some (JArray xs) \<and> tags c' = Some (JArray zs)
                \<and> set zs = set xs \<and> distinct zs))"

text \<open>
  One statement in closed form: the staging row that conflicts with a catalog row (the
  first with its key), the catalog row after the statement, the rows the statement
  appends, and the keys of the staging rows.
\<close>

definition staged_for :: "'a postgres_scheme \<Rightarrow> load_row list \<Rightarrow> image_row \<Rightarrow> load_row option" where
  "staged_for pg stg old =
     find (\<lambda>r. index_key pg r \<noteq> None \<and> index_key pg r = index_key pg old) stg"

definition after_upsert ::
  "'a postgres_scheme \<Rightarrow> timestamp \<Rightarrow> load_row list \<Rightarrow> image_row \<Rightarrow> image_row" where
  "after_upsert pg now stg old =
     (case staged_for pg stg old of None \<Rightarrow> old | Some r \<Rightarrow> updated_row pg now old r)"

definition inserted_rows ::
  "'a postgres_scheme \<Rightarrow> timestamp \<Rightarrow> load_row list \<Rightarrow> image_row list \<Rightarrow> image_row list" where
  "inserted_rows pg now stg img =
     map (insert_row now)
       (filter (\<lambda>r. index_key pg r = None \<or> index_key pg r \<notin> index_key pg ` set img) stg)"

fun staged_keys :: "'a postgres_scheme \<Rightarrow> 'b load_row_scheme list \<Rightarrow> (string \<times> string) list" where
  "staged_keys pg [] = []"
| "staged_keys pg (r # rs) =
     (case index_key pg r of None \<Rightarrow> staged_keys pg rs | Some k \<Rightarrow> k # staged_keys pg rs)"

section \<open>Notions used to state what the passes do\<close>

text \<open>
  The condition of the \<^verbatim>\<open>UPDATE\<close> on one row; a list of updates with plain values
  applied in order to the table, and to one row.
\<close>

definition hits :: "'a postgres_scheme \<Rightarrow> string \<Rightarrow> string option \<Rightarrow> image_row \<Rightarrow> bool" where
  "hits pg default_provider fid row \<longleftrightarrow>
     sql_eq (provider row) (Some default_provider)
     \<and> sql_eq (map_option (md5 pg) (foreign_id row)) (Some (md5 pg (py_format fid)))"


text \<open>
  The rows of a provider whose foreign identifier, as an f-string prints it, is plain;
  the plain names of a table of sub-providers.
\<close>

definition plain_foreign_ids :: "string \<Rightarrow> image_row list \<Rightarrow> bool" where
  "plain_foreign_ids default_provider img \<longleftrightarrow>
     (\<forall>row \<in> set img. provider row = Some default_provider
        \<longrightarrow> plain (py_format (foreign_id row)))"

definition plain_names :: "(string \<times> 'a) list \<Rightarrow> bool" where
  "plain_names sub_providers \<longleftrightarrow> (\<forall>s \<in> fst ` set sub_providers. plain s)"

definition row_after ::
  "'a postgres_scheme \<Rightarrow> string \<Rightarrow> (string option \<times> string) list \<Rightarrow> image_row \<Rightarrow> image_row" where
  "row_after pg default_provider updates row =
     foldl (\<lambda>row (fid, sub_provider).
              if hits pg default_provider fid row then row\<lparr> source := Some sub_provider \<rparr> else row)
       row updates"


section \<open>Concrete rows and parameters for the examples\<close>

definition plain_postgres :: postgres where
  "plain_postgres = \<lparr> md5 = (\<lambda>s. s), jsonb_le = (\<lambda>a b. True), jsonb_out = (\<lambda>v. []) \<rparr>"

definition blank_row :: load_row where
  "blank_row =
     \<lparr> foreign_id = None, landing_url = None, direct_url = None, thumbnail = None,
       width = None, height = None, filesize = None, license = None, license_version = None,
       creator = None, creator_url = None, title = None, meta_data = None, tags = None,
       watermarked = None, provider = None, source = None, ingestion_type = None \<rparr>"

definition existing_42 :: image_row where
  "existing_42 =
     insert_row 1 (blank_row\<lparr> foreign_id := Some ''42'', provider := Some ''rawpixel'',
       width := Some 800, tags := Some (JArray [JString ''sky'', JString ''sea'']),
       meta_data := Some (JObject (fmupd ''artist'' (JString ''A'') fmempty)) \<rparr>)"

definition incoming_42 :: load_row where
  "incoming_42 =
     blank_row\<lparr> foreign_id := Some ''42'', provider := Some ''rawpixel'',
       tags := Some (JArray [JString ''sea'']),
       meta_data := Some (JObject (fmupd ''license_notes'' (JString ''cc0'') fmempty)) \<rparr>"

definition merged_42 :: image_row where
  "merged_42 =
     existing_42\<lparr> updated_on := Some 2, last_synced := Some 2,
       meta_data := Some (JObject (fmupd ''license_notes'' (JString ''cc0'')
                      (fmupd ''artist'' (JString ''A'') fmempty))) \<rparr>"

definition nested_null_row :: load_row where
  "nested_null_row =
     blank_row\<lparr> foreign_id := Some ''7'', provider := Some ''rawpixel'',
       meta_data := Some (JObject (fmupd ''a'' (JObject (fmupd ''b'' JNull fmempty)) fmempty)) \<rparr>"

definition no_metadata_row :: load_row where
  "no_metadata_row = blank_row\<lparr> foreign_id := Some ''7'', provider := Some ''rawpixel'' \<rparr>"

definition null_key_row :: load_row where
  "null_key_row =
     blank_row\<lparr> foreign_id := Some ''7'', provider := Some ''rawpixel'',
       meta_data := Some (JObject (fmupd ''c'' JNull fmempty)) \<rparr>"

text \<open>
  Functions on strings for the examples: \<^verbatim>\<open>split\<close> with a separator, \<^verbatim>\<open>splitlines\<close>
  at line feeds, the decimal numeral of a number and its value.
\<close>

fun split_from :: "string \<Rightarrow> nat \<Rightarrow> string \<Rightarrow> string \<Rightarrow> string list" where
  "split_from sep skip piece [] = [rev piece]"
| "split_from sep (Suc skip) piece (c # cs) = split_from sep skip piece cs"
| "split_from sep 0 piece (c # cs) =
     (if sep \<noteq> [] \<and> prefix sep (c # cs)
      then rev piece # split_from sep (length sep - 1) [] cs
      else split_from sep 0 (c # piece) cs)"

definition split_on :: "string \<Rightarrow> string \<Rightarrow> string list" where
  "split_on s sep = split_from sep 0 [] s"

definition lines_of :: "string \<Rightarrow> string list" where
  "lines_of s = (if s = [] then [] else if last s = CHR 0x0A then butlast (split_on s [CHR 0x0A])
                 else split_on s [CHR 0x0A])"

function decimal :: "nat \<Rightarrow> string" where
  "decimal n = (if n < 10 then [''0123456789'' ! n]
                else decimal (n div 10) @ [''0123456789'' ! (n mod 10)])"
  by pat_completeness auto
termination
  by (relation "measure id") auto

declare decimal.simps [simp del]

definition digit_value :: "char \<Rightarrow> int option" where
  "digit_value c = map_of (zip ''0123456789'' [0, 1, 2, 3, 4, 5, 6, 7, 8, 9]) c"

definition decimal_value :: "string \<Rightarrow> int option" where
  "decimal_value s =
     (if s = [] then None
      else foldl (\<lambda>value c. case (value, digit_value c) of
                                (Some v, Some d) \<Rightarrow> Some (10 * v + d)
                              | _ \<Rightarrow> None)
             (Some 0) s)"

text \<open>
  The message of the server for a field that is not JSON, and for a field that is not
  an integer: only the first has a line that starts with \<^verbatim>\<open>COPY\<close>.
\<close>

definition json_error :: "int \<Rightarrow> py_error \<times> string" where
  "json_error n =
     (InvalidTextRepresentation,
      ''invalid input syntax for type json'' @ [CHR 0x0A]
      @ ''DETAIL:  Token x is invalid.'' @ [CHR 0x0A]
      @ ''CONTEXT:  JSON data, line 1: x'' @ [CHR 0x0A]
      @ ''COPY provider_image_data, line '' @ decimal (nat n) @ '', column meta_data: x''
      @ [CHR 0x0A])"


definition parse_good :: parser where
  "parse_good l = (if l = ''good'' then Inr blank_row else Inl json_error)"



definition complete_row :: load_row where
  "complete_row =
     blank_row\<lparr> foreign_id := Some ''1'', landing_url := Some ''https://example.org/1'',
       direct_url := Some ''https://example.org/1.jpg'', license := Some ''cc0'',
       provider := Some ''rawpixel'' \<rparr>"

definition first_dup :: load_row where
  "first_dup = complete_row\<lparr> title := Some ''first'' \<rparr>"

definition second_dup :: load_row where
  "second_dup = complete_row\<lparr> title := Some ''second'' \<rparr>"

definition no_license_row :: load_row where
  "no_license_row = complete_row\<lparr> foreign_id := Some ''2'', license := None \<rparr>"

definition resync_row :: load_row where
  "resync_row =
     blank_row\<lparr> foreign_id := Some ''7'', provider := Some ''rawpixel'',
       meta_data := Some (JObject (fmupd ''c'' JNull fmempty)),
       tags := Some (JArray [JString ''sea'', JString ''sea'']) \<rparr>"

definition plain_python :: python where
  "plain_python =
     \<lparr> json_loads = (\<lambda>t. if t = ''[A, B]'' then Inr (JArray [JString ''A'', JString ''B''])
                          else Inl JSONDecodeError),
       urlparse_query = (\<lambda>u. if u = ''https://img.rawpixel.com/1.jpg?h=630''
                              then [(''h'', [''630''])] else []),
       str_of = (\<lambda>v. case v of JString s \<Rightarrow> s | _ \<Rightarrow> ''1''),
       str_replace = (\<lambda>old new s. s),
       str_strip = (\<lambda>s. s),
       str_split = split_on,
       str_splitlines = lines_of,
       int_of_str = decimal_value \<rparr>"

definition array_postgres :: postgres_hook where
  "array_postgres =
     \<lparr> md5 = (\<lambda>s. s), jsonb_le = (\<lambda>a b. True), jsonb_out = (\<lambda>v. ''[A, B]''),
       run_interpolated = (\<lambda>sub_provider default_provider fid img. Inl SqlSyntaxError) \<rparr>"

definition europeana_subs :: "(string \<times> string) list" where
  "europeana_subs = [(''sub_a'', ''A''), (''sub_b'', ''B'')]"

definition ambiguous_row :: image_row where
  "ambiguous_row =
     insert_row 1 (blank_row\<lparr> foreign_id := Some ''e1'', provider := Some ''europeana'',
       source := Some ''europeana'',
       meta_data := Some (JObject (fmupd ''dataProvider''
                      (JArray [JString ''A'', JString ''B'']) fmempty)) \<rparr>)"

definition smithsonian_subs :: "(string \<times> string list) list" where
  "smithsonian_subs = [(''smithsonian_natural_history'', [''NMNHANTHRO'', ''NMNHBIRDS''])]"

definition unknown_unit_row :: image_row where
  "unknown_unit_row =
     insert_row 1 (blank_row\<lparr> foreign_id := Some ''s1'', provider := Some ''smithsonian'',
       source := Some ''smithsonian'',
       meta_data := Some (JObject (fmupd ''unit_code'' (JString ''XYZ'') fmempty)) \<rparr>)"







text \<open>
  A payload of the RawPixel API whose \<^verbatim>\<open>image_opengraph\<close> URL has the query \<^verbatim>\<open>h=630\<close>
  and no \<^verbatim>\<open>w\<close>.
\<close>

definition payload_without_width :: "(string, jsonb) fmap" where
  "payload_without_width =
     fmupd ''freecc0'' (JBool True)
       (fmupd ''id'' (JNumber 1)
         (fmupd ''url'' (JString ''https://www.rawpixel.com/image/1'')
           (fmupd ''image_opengraph'' (JString ''https://img.rawpixel.com/1.jpg?h=630'')
             fmempty)))"

section \<open>Basic facts about the built-ins\<close>

lemma coalesce_simps [simp]:
  "coalesce None b = b"
  "coalesce (Some v) b = Some v"
  "coalesce a None = a"
  by (simp_all add: coalesce_def split: option.splits)


lemma strip_nulls_eq_JNull [simp]: "jsonb_strip_nulls v = JNull \<longleftrightarrow> v = JNull"
  by (cases v) simp_all

lemma set_insort_by [simp]: "set (insort_by le x xs) = insert x (set xs)"
  by (induction xs) auto

lemma distinct_insort_by [simp]: "distinct (insort_by le x xs) \<longleftrightarrow> x \<notin> set xs \<and> distinct xs"
  by (induction xs) auto

lemma set_foldr_insort_by [simp]: "set (foldr (insort_by le) xs []) = set xs"
  by (induction xs) auto

lemma distinct_foldr_insort_by [simp]: "distinct (foldr (insort_by le) xs []) \<longleftrightarrow> distinct xs"
  by (induction xs) auto

section \<open>One merge: the columns of the updated row\<close>

lemma do_update_fields:
  assumes "do_update pg now old excluded = Inr new"
  shows "merge_jsonb_arrays pg (tags old) (tags excluded) = Inr (tags new)"
    and "meta_data new = merge_jsonb_objects (meta_data old) (meta_data excluded)"
    and "updated_on new = Some now" and "last_synced new = Some now"
    and "removed new = Some False" and "created_on new = created_on old"
    and "provider new = provider old" and "foreign_id new = foreign_id old"
    and "ingestion_type new = newest_non_null (ingestion_type excluded) (ingestion_type old)"
    and "source new = newest_non_null (source excluded) (source old)"
    and "landing_url new = newest_non_null (landing_url excluded) (landing_url old)"
    and "direct_url new = newest_non_null (direct_url excluded) (direct_url old)"
    and "thumbnail new = newest_non_null (thumbnail excluded) (thumbnail old)"
    and "width new = newest_non_null (width excluded) (width old)"
    and "height new = newest_non_null (height excluded) (height old)"
    and "filesize new = newest_non_null (filesize excluded) (filesize old)"
    and "license new = newest_non_null (license excluded) (license old)"
    and "license_version new = newest_non_null (license_version excluded) (license_version old)"
    and "creator new = newest_non_null (creator excluded) (creator old)"
    and "creator_url new = newest_non_null (creator_url excluded) (creator_url old)"
    and "title new = newest_non_null (title excluded) (title old)"
    and "watermarked new = newest_non_null (watermarked excluded) (watermarked old)"
  using assms unfolding do_update_def by (auto split: sum.splits)

lemma merge_jsonb_objects_objects:
  "merge_jsonb_objects (Some (JObject a)) (Some (JObject b)) =
     Some (JObject (fmfilter (\<lambda>k. fmlookup a k \<noteq> Some JNull) (fmmap jsonb_strip_nulls a)
              ++\<^sub>f fmfilter (\<lambda>k. fmlookup b k \<noteq> Some JNull) (fmmap jsonb_strip_nulls b)))"
  by (simp add: merge_jsonb_objects_def sql_concat_def)

lemma merge_jsonb_objects_None [simp]:
  "merge_jsonb_objects None e = e"
  "merge_jsonb_objects old None = old"
  by (simp_all add: merge_jsonb_objects_def sql_concat_def split: option.splits)

lemma merge_jsonb_arrays_arrays:
  "\<exists>zs. merge_jsonb_arrays pg (Some (JArray xs)) (Some (JArray ys)) = Inr (Some (JArray zs))
      \<and> set zs = set xs \<union> set ys \<and> distinct zs"
  by (auto simp: merge_jsonb_arrays_def sql_concat_def jsonb_agg_distinct_def)

lemma merge_jsonb_arrays_None [simp]:
  "merge_jsonb_arrays pg None e = Inr e"
  "merge_jsonb_arrays pg old None = Inr old"
  by (simp_all add: merge_jsonb_arrays_def sql_concat_def jsonb_agg_distinct_def
      split: option.splits)

text \<open>
  The example of the specification: the catalog row of image 42 with width 800 and
  metadata \<^verbatim>\<open>{"artist": "A"}\<close> merged with an incoming row without width and with
  metadata \<^verbatim>\<open>{"license_notes": "cc0"}\<close>.
\<close>

lemma do_update_42: "do_update plain_postgres 2 existing_42 incoming_42 = Inr merged_42"
  by (simp add: do_update_def existing_42_def incoming_42_def merged_42_def blank_row_def
      insert_row_def plain_postgres_def merge_jsonb_arrays_def merge_jsonb_objects_def
      sql_concat_def jsonb_agg_distinct_def newest_non_null_def fmmap_fmupd)

lemma example_42_columns:
  "width incoming_42 = None" "width existing_42 = Some 800"
  "meta_data existing_42 = Some (JObject (fmupd ''artist'' (JString ''A'') fmempty))"
  "meta_data incoming_42 = Some (JObject (fmupd ''license_notes'' (JString ''cc0'') fmempty))"
  "tags existing_42 = Some (JArray [JString ''sky'', JString ''sea''])"
  "tags incoming_42 = Some (JArray [JString ''sea''])"
  by (simp_all add: existing_42_def incoming_42_def blank_row_def insert_row_def)

section \<open>Scalar columns of a merge\<close>



section \<open>The metadata column of a merge\<close>

text \<open>
  Claim C3, as the code has it. When the existing and the incoming metadata are both
  JSON objects, the merged metadata is the object that holds, for every key whose
  incoming value is not null, the incoming value with its null-valued fields stripped
  at every depth (\<^verbatim>\<open>jsonb_strip_nulls\<close>); for every other key whose existing value is
  not null, the existing value stripped in the same way; no other key; and so no key
  with a null value. When the existing metadata is SQL NULL the incoming metadata is
  stored as it is, and when the incoming metadata is SQL NULL the existing metadata
  is kept as it is; null-valued keys stay in both cases.
\<close>

theorem metadata_merge_of_objects:
  assumes "do_update pg now old excluded = Inr new"
  shows "(meta_data old = Some (JObject a) \<and> meta_data excluded = Some (JObject b) \<longrightarrow>
           (\<exists>m. meta_data new = Some (JObject m)
              \<and> (\<forall>k v. fmlookup b k = Some v \<and> v \<noteq> JNull
                    \<longrightarrow> fmlookup m k = Some (jsonb_strip_nulls v))
              \<and> (\<forall>k v. fmlookup a k = Some v \<and> v \<noteq> JNull
                      \<and> (fmlookup b k = None \<or> fmlookup b k = Some JNull)
                    \<longrightarrow> fmlookup m k = Some (jsonb_strip_nulls v))
              \<and> (\<forall>k. (fmlookup a k = None \<or> fmlookup a k = Some JNull)
                      \<and> (fmlookup b k = None \<or> fmlookup b k = Some JNull)
                    \<longrightarrow> fmlookup m k = None)
              \<and> (\<forall>k. fmlookup m k \<noteq> Some JNull)))
       \<and> (meta_data old = None \<longrightarrow> meta_data new = meta_data excluded)
       \<and> (meta_data excluded = None \<longrightarrow> meta_data new = meta_data old)"
proof -
  have m: "meta_data new = merge_jsonb_objects (meta_data old) (meta_data excluded)"
    using do_update_fields(2) [OF assms] .
  show ?thesis
    unfolding m by (auto simp: merge_jsonb_objects_objects split: option.splits)
qed

text \<open>
  On the example the merged metadata is \<^verbatim>\<open>{"artist": "A", "license_notes": "cc0"}\<close>.
\<close>

theorem metadata_merge_witness:
  "do_update plain_postgres 2 existing_42 incoming_42 = Inr merged_42
   \<and> meta_data existing_42 = Some (JObject (fmupd ''artist'' (JString ''A'') fmempty))
   \<and> meta_data incoming_42 = Some (JObject (fmupd ''license_notes'' (JString ''cc0'') fmempty))
   \<and> (\<exists>m. meta_data merged_42 = Some (JObject m)
        \<and> fmlookup m ''artist'' = Some (JString ''A'')
        \<and> fmlookup m ''license_notes'' = Some (JString ''cc0''))"
proof -
  let ?a = "fmupd ''artist'' (JString ''A'') fmempty"
  let ?b = "fmupd ''license_notes'' (JString ''cc0'') fmempty"
  from metadata_merge_of_objects [OF do_update_42, of ?a ?b] example_42_columns(3,4)
  obtain m where m: "meta_data merged_42 = Some (JObject m)"
    and inc: "\<forall>k v. fmlookup ?b k = Some v \<and> v \<noteq> JNull
                    \<longrightarrow> fmlookup m k = Some (jsonb_strip_nulls v)"
    and ex: "\<forall>k v. fmlookup ?a k = Some v \<and> v \<noteq> JNull
                      \<and> (fmlookup ?b k = None \<or> fmlookup ?b k = Some JNull)
                    \<longrightarrow> fmlookup m k = Some (jsonb_strip_nulls v)"
    by blast
  have "fmlookup m ''license_notes'' = Some (jsonb_strip_nulls (JString ''cc0''))"
    by (rule inc [rule_format]) simp
  moreover have "fmlookup m ''artist'' = Some (jsonb_strip_nulls (JString ''A''))"
    by (rule ex [rule_format]) simp
  ultimately show ?thesis
    using m do_update_42 example_42_columns(3,4) by simp
qed

text \<open>
  The claim as written fails twice. A key present only in the existing metadata does
  not keep its existing value when that value holds a null field: \<^verbatim>\<open>{"a": {"b": null}}\<close>
  merged with \<^verbatim>\<open>{"c": null}\<close> gives \<^verbatim>\<open>{"a": {}}\<close>. And a null-valued key survives the
  merge when the existing metadata is SQL NULL: the incoming \<^verbatim>\<open>{"c": null}\<close> is stored
  as it is.
\<close>

theorem metadata_merge_counterexample:
  "do_update plain_postgres 2 (insert_row 1 nested_null_row) null_key_row =
     Inr ((insert_row 1 nested_null_row)\<lparr> updated_on := Some 2, last_synced := Some 2,
            meta_data := Some (JObject (fmupd ''a'' (JObject fmempty) fmempty)) \<rparr>)
   \<and> JObject fmempty \<noteq> JObject (fmupd ''b'' JNull fmempty)
   \<and> do_update plain_postgres 2 (insert_row 1 no_metadata_row) null_key_row =
     Inr ((insert_row 1 no_metadata_row)\<lparr> updated_on := Some 2, last_synced := Some 2,
            meta_data := Some (JObject (fmupd ''c'' JNull fmempty)) \<rparr>)"
  by (simp add: do_update_def nested_null_row_def null_key_row_def no_metadata_row_def
      blank_row_def insert_row_def plain_postgres_def merge_jsonb_arrays_def
      merge_jsonb_objects_def sql_concat_def jsonb_agg_distinct_def newest_non_null_def
      fmmap_fmupd)

section \<open>The tags column of a merge\<close>



section \<open>Deleting a malformed line and loading again\<close>

lemma delete_malformed_row_filter_aux:
  "map snd (filter (\<lambda>(index, line). int index + 1 \<noteq> int k) (enumerate n lines)) =
     take (k - 1 - n) lines @ drop (k - n) lines"
  if "n < k"
  using that
proof (induction lines arbitrary: n)
  case Nil
  then show ?case by simp
next
  case (Cons l ls)
  show ?case
  proof (cases "Suc n = k")
    case True
    have "\<forall>p \<in> set (enumerate (Suc n) ls). (case p of (index, line) \<Rightarrow> int index + 1 \<noteq> int k)"
      using True by (auto simp: in_set_enumerate_eq)
    then have "filter (\<lambda>(index, line). int index + 1 \<noteq> int k) (enumerate (Suc n) ls)
               = enumerate (Suc n) ls"
      by (simp add: filter_id_conv)
    then show ?thesis using True by (auto simp: map_snd_enumerate)
  next
    case False
    with Cons.prems have lt: "Suc n < k" by simp
    have "k - 1 - n = Suc (k - 1 - Suc n)" "k - n = Suc (k - Suc n)"
      using lt by simp_all
    then show ?thesis
      using Cons.IH [OF lt] lt by simp
  qed
qed

lemma delete_malformed_row_take_drop:
  assumes "1 \<le> k"
  shows "delete_malformed_row_in_file lines (int k) = take (k - 1) lines @ drop k lines"
  using delete_malformed_row_filter_aux [of 0 k lines] assms
  by (simp add: delete_malformed_row_in_file_def)



lemma load_loop_done:
  "load_successful \<or> max_rows_to_skip < 0
   \<Longrightarrow> load_loop py parse f t load_successful max_rows_to_skip
       = ((f, t, load_successful, max_rows_to_skip), None)"
  by (subst load_loop.simps) auto

lemma load_loop_failed_attempt:
  "0 \<le> m \<Longrightarrow> bulk_load parse f = Inl (InvalidTextRepresentation, error_msg)
   \<Longrightarrow> get_malformed_row_in_file py error_msg = Inr n
   \<Longrightarrow> load_loop py parse f t False m
       = load_loop py parse (delete_malformed_row_in_file f n) t False (m - 1)"
  by (subst load_loop.simps) simp










lemma json_error_line_1:
  "get_malformed_row_in_file plain_python (snd (json_error 1)) = Inr 1"
  by code_simp




section \<open>The cap on skipped rows\<close>

lemma load_loop_all_malformed:
  "parse bad = Inl report \<Longrightarrow> report 1 = (InvalidTextRepresentation, error_msg)
   \<Longrightarrow> get_malformed_row_in_file py error_msg = Inr 1 \<Longrightarrow> n \<le> j
   \<Longrightarrow> load_loop py parse (replicate j bad @ rest) t False (int n - 1)
       = ((replicate (j - n) bad @ rest, t, False, - 1), None)"
proof (induction n arbitrary: j)
  case 0
  then show ?case by (simp add: load_loop_done)
next
  case (Suc n)
  then obtain j' where j: "j = Suc j'" "n \<le> j'"
    by (cases j) auto
  have fail: "bulk_load parse (replicate j bad @ rest) = Inl (InvalidTextRepresentation, error_msg)"
    using Suc.prems(1,2) j by (simp add: bulk_load_def)
  have del: "delete_malformed_row_in_file (replicate j bad @ rest) 1 = replicate j' bad @ rest"
    using delete_malformed_row_take_drop [of 1 "replicate j bad @ rest"] j by simp
  have "load_loop py parse (replicate j bad @ rest) t False (int (Suc n) - 1)
          = load_loop py parse (replicate j' bad @ rest) t False (int (Suc n) - 1 - 1)"
    using load_loop_failed_attempt [OF _ fail Suc.prems(3), of "int (Suc n) - 1" t] del by simp
  also have "\<dots> = ((replicate (j' - n) bad @ rest, t, False, - 1), None)"
    using Suc.IH [OF Suc.prems(1,2,3) j(2)] by simp
  finally show ?case using j by simp
qed

text \<open>
  Claim C6 says that with the default cap 10 at most 10 rows are removed from the file
  before the load fails. The loop runs while \<^verbatim>\<open>max_rows_to_skip >= 0\<close>, that is for
  the eleven values 10, 9, ..., 0, and every failed attempt deletes a line before the
  counter is lowered. On a file of eleven malformed lines followed by one good line
  the call deletes all eleven malformed lines and then raises, although the file it
  leaves behind would load.
\<close>

theorem eleven_rows_removed_before_failure:
  "load_local_data_to_intermediate_table plain_python parse_good
       (replicate 11 ''bad'' @ [''good'']) 10
     = ([''good''], Inl InvalidTextRepresentation)
   \<and> bulk_load parse_good [''good''] = Inr [blank_row]"
proof -
  have bad: "parse_good ''bad'' = Inl json_error"
    by (simp add: parse_good_def)
  have msg: "json_error 1 = (InvalidTextRepresentation, snd (json_error 1))"
    by (simp add: json_error_def)
  from load_loop_all_malformed
    [where parse = parse_good and bad = "''bad''" and report = json_error
       and error_msg = "snd (json_error 1)" and py = plain_python and n = 11 and j = 11
       and rest = "[''good'']" and t = "[]", OF bad msg json_error_line_1]
  have "load_loop plain_python parse_good (replicate 11 ''bad'' @ [''good'']) [] False 10
          = (([''good''], [], False, - 1), None)"
    by simp
  then show ?thesis
    by (simp add: load_local_data_to_intermediate_table_def bulk_load_def parse_good_def)
qed

section \<open>Cleaning the staging table\<close>

lemma set_delete_duplicates: "set (delete_duplicates t) \<subseteq> set t"
  by (induction t) auto

lemma delete_duplicates_keeps_last_of_key:
  "filter (\<lambda>r. provider r = Some p \<and> foreign_id r = Some f) (delete_duplicates t) =
     (if filter (\<lambda>r. provider r = Some p \<and> foreign_id r = Some f) t = [] then []
      else [last (filter (\<lambda>r. provider r = Some p \<and> foreign_id r = Some f) t)])"
proof (induction t)
  case Nil
  then show ?case by simp
next
  case (Cons p1 later)
  let ?K = "\<lambda>r. provider r = Some p \<and> foreign_id r = Some f"
  show ?case
  proof (cases "?K p1")
    case True
    have dup: "(\<exists>p2 \<in> set later.
                  sql_eq (provider p1) (provider p2) \<and> sql_eq (foreign_id p1) (foreign_id p2))
               \<longleftrightarrow> filter ?K later \<noteq> []"
      using True by (auto simp: sql_eq_def filter_empty_conv split: option.splits)
    show ?thesis
    proof (cases "filter ?K later = []")
      case True
      with dup Cons.IH \<open>?K p1\<close> show ?thesis by simp
    next
      case False
      with dup Cons.IH \<open>?K p1\<close> show ?thesis by simp
    qed
  next
    case False
    then show ?thesis using Cons.IH by auto
  qed
qed

lemma delete_duplicates_keeps_null_provider:
  "filter (\<lambda>r. provider r = None) (delete_duplicates t) = filter (\<lambda>r. provider r = None) t"
  by (induction t) (auto simp: sql_eq_def)

lemma clean_as_filter:
  "clean_intermediate_table_data t =
     delete_duplicates (filter (\<lambda>r. direct_url r \<noteq> None \<and> license r \<noteq> None
        \<and> landing_url r \<noteq> None \<and> foreign_id r \<noteq> None) t)"
  by (simp add: clean_intermediate_table_data_def delete_where_null_def conj_commute conj_left_commute)

text \<open>
  Claim C5, as the code has it. After \<^verbatim>\<open>_clean_intermediate_table_data\<close> no row has
  a NULL direct_url, license, landing_url or foreign_identifier. Of the rows that pass
  these four deletions and share a provider (not NULL) and a foreign_identifier,
  exactly one remains, and it is the physically last of them: the self-join deletes
  the row with the smaller \<^verbatim>\<open>ctid\<close>. Rows whose provider is NULL are equal to no row
  and all remain.
\<close>

theorem clean_keeps_last_row_of_each_key:
  "(\<forall>r \<in> set (clean_intermediate_table_data t).
      direct_url r \<noteq> None \<and> license r \<noteq> None \<and> landing_url r \<noteq> None \<and> foreign_id r \<noteq> None)
   \<and> (\<forall>p f. filter (\<lambda>r. provider r = Some p \<and> foreign_id r = Some f)
               (filter (\<lambda>r. direct_url r \<noteq> None \<and> license r \<noteq> None
                  \<and> landing_url r \<noteq> None \<and> foreign_id r \<noteq> None) t) \<noteq> []
         \<longrightarrow> filter (\<lambda>r. provider r = Some p \<and> foreign_id r = Some f)
               (clean_intermediate_table_data t)
             = [last (filter (\<lambda>r. provider r = Some p \<and> foreign_id r = Some f)
                 (filter (\<lambda>r. direct_url r \<noteq> None \<and> license r \<noteq> None
                    \<and> landing_url r \<noteq> None \<and> foreign_id r \<noteq> None) t))])
   \<and> filter (\<lambda>r. provider r = None) (clean_intermediate_table_data t)
       = filter (\<lambda>r. provider r = None)
           (filter (\<lambda>r. direct_url r \<noteq> None \<and> license r \<noteq> None
              \<and> landing_url r \<noteq> None \<and> foreign_id r \<noteq> None) t)"
proof -
  let ?C = "\<lambda>r::load_row. direct_url r \<noteq> None \<and> license r \<noteq> None
              \<and> landing_url r \<noteq> None \<and> foreign_id r \<noteq> None"
  have "\<forall>r \<in> set (clean_intermediate_table_data t). ?C r"
    using set_delete_duplicates [of "filter ?C t"] unfolding clean_as_filter by auto
  moreover have "\<forall>p f. filter (\<lambda>r. provider r = Some p \<and> foreign_id r = Some f) (filter ?C t) \<noteq> []
         \<longrightarrow> filter (\<lambda>r. provider r = Some p \<and> foreign_id r = Some f)
               (clean_intermediate_table_data t)
             = [last (filter (\<lambda>r. provider r = Some p \<and> foreign_id r = Some f) (filter ?C t))]"
    unfolding clean_as_filter
    using delete_duplicates_keeps_last_of_key [of _ _ "filter ?C t"] by simp
  moreover have "filter (\<lambda>r. provider r = None) (clean_intermediate_table_data t)
       = filter (\<lambda>r. provider r = None) (filter ?C t)"
    unfolding clean_as_filter by (rule delete_duplicates_keeps_null_provider)
  ultimately show ?thesis by blast
qed

text \<open>
  Two complete rows with one key and a malformed row between them: the second of the
  two remains.
\<close>

theorem clean_witness:
  "filter (\<lambda>r. provider r = Some ''rawpixel'' \<and> foreign_id r = Some ''1'')
     (filter (\<lambda>r. direct_url r \<noteq> None \<and> license r \<noteq> None
        \<and> landing_url r \<noteq> None \<and> foreign_id r \<noteq> None)
        [first_dup, no_license_row, second_dup]) = [first_dup, second_dup]
   \<and> filter (\<lambda>r. provider r = Some ''rawpixel'' \<and> foreign_id r = Some ''1'')
       (clean_intermediate_table_data [first_dup, no_license_row, second_dup]) = [second_dup]
   \<and> list_all (\<lambda>r. license r \<noteq> None)
        (clean_intermediate_table_data [first_dup, no_license_row, second_dup])"
proof -
  let ?t = "[first_dup, no_license_row, second_dup]"
  have g: "filter (\<lambda>r. provider r = Some ''rawpixel'' \<and> foreign_id r = Some ''1'')
     (filter (\<lambda>r. direct_url r \<noteq> None \<and> license r \<noteq> None
        \<and> landing_url r \<noteq> None \<and> foreign_id r \<noteq> None) ?t) = [first_dup, second_dup]"
    by (simp add: first_dup_def second_dup_def no_license_row_def complete_row_def blank_row_def)
  from clean_keeps_last_row_of_each_key [of ?t]
  have a: "\<forall>r \<in> set (clean_intermediate_table_data ?t). license r \<noteq> None"
    and b: "\<forall>p f. filter (\<lambda>r. provider r = Some p \<and> foreign_id r = Some f)
               (filter (\<lambda>r. direct_url r \<noteq> None \<and> license r \<noteq> None
                  \<and> landing_url r \<noteq> None \<and> foreign_id r \<noteq> None) ?t) \<noteq> []
         \<longrightarrow> filter (\<lambda>r. provider r = Some p \<and> foreign_id r = Some f)
               (clean_intermediate_table_data ?t)
             = [last (filter (\<lambda>r. provider r = Some p \<and> foreign_id r = Some f)
                 (filter (\<lambda>r. direct_url r \<noteq> None \<and> license r \<noteq> None
                    \<and> landing_url r \<noteq> None \<and> foreign_id r \<noteq> None) ?t))]"
    by blast+
  from b [rule_format, of "''rawpixel''" "''1''"] g
  have "filter (\<lambda>r. provider r = Some ''rawpixel'' \<and> foreign_id r = Some ''1'')
       (clean_intermediate_table_data ?t) = [second_dup]"
    by simp
  with g a show ?thesis by (simp add: list_all_iff)
qed

text \<open>
  The claim as written fails: of two rows with the same key the physically earlier
  one is deleted and the later one remains.
\<close>

lemma example_rows_distinct: "first_dup \<noteq> second_dup"
proof
  assume "first_dup = second_dup"
  then have "title first_dup = title second_dup" by simp
  then show False by (simp add: first_dup_def second_dup_def)
qed

theorem clean_physically_earlier_counterexample:
  "clean_intermediate_table_data [first_dup, second_dup] = [second_dup]
   \<and> first_dup \<noteq> second_dup"
  using example_rows_distinct
  by (simp add: clean_intermediate_table_data_def delete_where_null_def sql_eq_def
      first_dup_def second_dup_def complete_row_def blank_row_def)

section \<open>Upserting the same batch twice\<close>

lemma array_or_null_cases:
  "array_or_null t \<longleftrightarrow> t = None \<or> (\<exists>xs. t = Some (JArray xs))"
  by (cases t rule: array_or_null.cases) simp_all

lemma object_or_null_cases:
  "object_or_null t \<longleftrightarrow> t = None \<or> (\<exists>m. t = Some (JObject m))"
  by (cases t rule: object_or_null.cases) simp_all

lemma lookup_stripped:
  "fmlookup (fmfilter (\<lambda>k. fmlookup m k \<noteq> Some JNull) (fmmap f m)) k =
     (case fmlookup m k of None \<Rightarrow> None | Some v \<Rightarrow> if v = JNull then None else Some (f v))"
  by (auto split: option.splits)

lemma strip_nulls_idem: "jsonb_strip_nulls (jsonb_strip_nulls v) = jsonb_strip_nulls v"
proof (induction v)
  case (JObject m)
  have "fmlookup (fmfilter (\<lambda>k. fmlookup (fmfilter (\<lambda>k. fmlookup m k \<noteq> Some JNull)
            (fmmap jsonb_strip_nulls m)) k \<noteq> Some JNull)
          (fmmap jsonb_strip_nulls (fmfilter (\<lambda>k. fmlookup m k \<noteq> Some JNull)
            (fmmap jsonb_strip_nulls m)))) k
        = fmlookup (fmfilter (\<lambda>k. fmlookup m k \<noteq> Some JNull) (fmmap jsonb_strip_nulls m)) k"
    for k
  proof (cases "fmlookup m k")
    case None
    then show ?thesis by simp
  next
    case (Some v)
    then have "v \<in> fmran' m" by (rule fmran'I)
    then have "jsonb_strip_nulls (jsonb_strip_nulls v) = jsonb_strip_nulls v"
      by (rule JObject.IH)
    with Some show ?thesis by simp
  qed
  then show ?case by (simp add: fmap_ext)
qed simp_all

lemma merge_objects_again:
  "merge_jsonb_objects (merge_jsonb_objects (Some (JObject a)) (Some (JObject b))) (Some (JObject b))
     = merge_jsonb_objects (Some (JObject a)) (Some (JObject b))"
proof -
  let ?S = "\<lambda>m. fmfilter (\<lambda>k. fmlookup m k \<noteq> Some JNull) (fmmap jsonb_strip_nulls m)"
  have "fmlookup (?S (?S a ++\<^sub>f ?S b) ++\<^sub>f ?S b) k = fmlookup (?S a ++\<^sub>f ?S b) k" for k
    by (cases "fmlookup a k"; cases "fmlookup b k") (simp_all add: strip_nulls_idem)
  then have "?S (?S a ++\<^sub>f ?S b) ++\<^sub>f ?S b = ?S a ++\<^sub>f ?S b"
    by (rule fmap_ext)
  then show ?thesis
    by (simp add: merge_jsonb_objects_objects)
qed

lemma merge_objects_self:
  "merge_jsonb_objects (Some (JObject b)) (Some (JObject b))
     = Some (jsonb_strip_nulls (JObject b))"
  by (simp add: merge_jsonb_objects_objects)

lemma merge_objects_typed:
  "object_or_null old \<Longrightarrow> object_or_null e \<Longrightarrow> object_or_null (merge_jsonb_objects old e)"
  by (auto simp: object_or_null_cases merge_jsonb_objects_objects)

lemma merge_objects_twice:
  assumes "object_or_null old" "object_or_null e"
  shows "merge_jsonb_objects (merge_jsonb_objects old e) e = merge_jsonb_objects old e
       \<or> merge_jsonb_objects (merge_jsonb_objects old e) e
           = map_option jsonb_strip_nulls (merge_jsonb_objects old e)"
  using assms
  by (auto simp: object_or_null_cases merge_objects_again merge_objects_self)

lemma merge_arrays_typed:
  assumes "array_or_null old" "array_or_null e"
  shows "\<exists>t. merge_jsonb_arrays pg old e = Inr t \<and> array_or_null t
     \<and> (\<exists>t'. merge_jsonb_arrays pg t e = Inr t'
          \<and> (t' = t \<or> (\<exists>xs zs. t = Some (JArray xs) \<and> t' = Some (JArray zs)
                \<and> set zs = set xs \<and> distinct zs)))"
proof (cases e)
  case None
  then show ?thesis using assms by simp
next
  case (Some ev)
  with assms obtain ys where e: "e = Some (JArray ys)"
    by (auto simp: array_or_null_cases)
  show ?thesis
  proof (cases old)
    case None
    from merge_jsonb_arrays_arrays [of pg ys ys] obtain zs where
      "merge_jsonb_arrays pg (Some (JArray ys)) (Some (JArray ys)) = Inr (Some (JArray zs))"
      "set zs = set ys \<union> set ys" "distinct zs" by blast
    with None e show ?thesis by auto
  next
    case (Some ov)
    with assms obtain xs where old: "old = Some (JArray xs)"
      by (auto simp: array_or_null_cases)
    from merge_jsonb_arrays_arrays [of pg xs ys] obtain zs where
      zs: "merge_jsonb_arrays pg (Some (JArray xs)) (Some (JArray ys)) = Inr (Some (JArray zs))"
      "set zs = set xs \<union> set ys" "distinct zs" by blast
    from merge_jsonb_arrays_arrays [of pg zs ys] obtain zs' where
      zs': "merge_jsonb_arrays pg (Some (JArray zs)) (Some (JArray ys)) = Inr (Some (JArray zs'))"
      "set zs' = set zs \<union> set ys" "distinct zs'" by blast
    have "set zs' = set zs" using zs(2) zs'(2) by auto
    with zs zs' old e show ?thesis by auto
  qed
qed

lemma resynced_refl: "resynced c c"
  by (simp add: resynced_def)

lemma newest_non_null_again [simp]:
  "newest_non_null e (newest_non_null e old) = newest_non_null e old"
  "newest_non_null e e = e"
  by (cases e; simp add: newest_non_null_def)+

lemma do_update_explicit:
  assumes "merge_jsonb_arrays pg (tags old) (tags excluded) = Inr t"
  shows "do_update pg now old excluded =
    Inr (old\<lparr>
            updated_on := Some now,
            last_synced := Some now,
            removed := Some False,
            ingestion_type := newest_non_null (ingestion_type excluded) (ingestion_type old),
            source := newest_non_null (source excluded) (source old),
            landing_url := newest_non_null (landing_url excluded) (landing_url old),
            direct_url := newest_non_null (direct_url excluded) (direct_url old),
            thumbnail := newest_non_null (thumbnail excluded) (thumbnail old),
            width := newest_non_null (width excluded) (width old),
            height := newest_non_null (height excluded) (height old),
            filesize := newest_non_null (filesize excluded) (filesize old),
            license := newest_non_null (license excluded) (license old),
            license_version := newest_non_null (license_version excluded) (license_version old),
            creator := newest_non_null (creator excluded) (creator old),
            creator_url := newest_non_null (creator_url excluded) (creator_url old),
            title := newest_non_null (title excluded) (title old),
            watermarked := newest_non_null (watermarked excluded) (watermarked old),
            meta_data := merge_jsonb_objects (meta_data old) (meta_data excluded),
            tags := t\<rparr>)"
  using assms by (simp add: do_update_def)

lemma do_update_typed:
  assumes "typed_columns old" "typed_columns excluded"
  shows "\<exists>new. do_update pg now old excluded = Inr new \<and> typed_columns new"
proof -
  from merge_arrays_typed [of "tags old" "tags excluded" pg] assms
  obtain t where t: "merge_jsonb_arrays pg (tags old) (tags excluded) = Inr t" "array_or_null t"
    by (auto simp: typed_columns_def)
  show ?thesis
    using assms t(2) merge_objects_typed [of "meta_data old" "meta_data excluded"]
    unfolding do_update_explicit [OF t(1)] by (simp add: typed_columns_def)
qed

lemma updated_row_typed:
  "typed_columns old \<Longrightarrow> typed_columns excluded
   \<Longrightarrow> do_update pg now old excluded = Inr (updated_row pg now old excluded)
       \<and> typed_columns (updated_row pg now old excluded)"
  using do_update_typed [of old excluded pg now] by (auto simp: updated_row_def)

lemma updated_row_key [simp]:
  "index_key pg (updated_row pg' now old excluded) = index_key pg old"
proof (cases "do_update pg' now old excluded")
  case (Inl e)
  then show ?thesis by (simp add: updated_row_def)
next
  case (Inr new)
  from do_update_fields(7,8) [OF Inr] Inr show ?thesis
    by (simp add: updated_row_def index_key_def split: option.splits)
qed

lemma insert_row_key [simp]: "index_key pg (insert_row now r) = index_key pg r"
  by (simp add: index_key_def insert_row_def split: option.splits)

lemma insert_row_typed [simp]: "typed_columns (insert_row now r) = typed_columns r"
  by (simp add: typed_columns_def insert_row_def)

lemma updated_row_again:
  assumes "typed_columns c0" "typed_columns r"
  shows "resynced (updated_row pg n1 c0 r) (updated_row pg n2 (updated_row pg n1 c0 r) r)"
proof -
  from merge_arrays_typed [of "tags c0" "tags r" pg] assms
  obtain t t' where t: "merge_jsonb_arrays pg (tags c0) (tags r) = Inr t"
    and t': "merge_jsonb_arrays pg t (tags r) = Inr t'"
    and tt: "t' = t \<or> (\<exists>xs zs. t = Some (JArray xs) \<and> t' = Some (JArray zs)
                \<and> set zs = set xs \<and> distinct zs)"
    by (auto simp: typed_columns_def)
  have m: "merge_jsonb_objects (merge_jsonb_objects (meta_data c0) (meta_data r)) (meta_data r)
             = merge_jsonb_objects (meta_data c0) (meta_data r)
         \<or> merge_jsonb_objects (merge_jsonb_objects (meta_data c0) (meta_data r)) (meta_data r)
             = map_option jsonb_strip_nulls (merge_jsonb_objects (meta_data c0) (meta_data r))"
    using assms by (intro merge_objects_twice) (simp_all add: typed_columns_def)
  have c: "updated_row pg n1 c0 r = c0\<lparr>
            updated_on := Some n1,
            last_synced := Some n1,
            removed := Some False,
            ingestion_type := newest_non_null (ingestion_type r) (ingestion_type c0),
            source := newest_non_null (source r) (source c0),
            landing_url := newest_non_null (landing_url r) (landing_url c0),
            direct_url := newest_non_null (direct_url r) (direct_url c0),
            thumbnail := newest_non_null (thumbnail r) (thumbnail c0),
            width := newest_non_null (width r) (width c0),
            height := newest_non_null (height r) (height c0),
            filesize := newest_non_null (filesize r) (filesize c0),
            license := newest_non_null (license r) (license c0),
            license_version := newest_non_null (license_version r) (license_version c0),
            creator := newest_non_null (creator r) (creator c0),
            creator_url := newest_non_null (creator_url r) (creator_url c0),
            title := newest_non_null (title r) (title c0),
            watermarked := newest_non_null (watermarked r) (watermarked c0),
            meta_data := merge_jsonb_objects (meta_data c0) (meta_data r),
            tags := t\<rparr>"
    by (simp add: updated_row_def do_update_explicit [OF t])
  show ?thesis
    unfolding c
    using t' tt m
    by (simp add: updated_row_def do_update_explicit resynced_def)
qed

lemma updated_row_after_insert:
  assumes "typed_columns r"
  shows "resynced (insert_row n1 r) (updated_row pg n2 (insert_row n1 r) r)"
proof -
  from merge_arrays_typed [of None "tags r" pg] assms
  obtain t' where t': "merge_jsonb_arrays pg (tags r) (tags r) = Inr t'"
    and tt: "t' = tags r \<or> (\<exists>xs zs. tags r = Some (JArray xs) \<and> t' = Some (JArray zs)
                \<and> set zs = set xs \<and> distinct zs)"
    by (auto simp: typed_columns_def)
  have m: "merge_jsonb_objects (meta_data r) (meta_data r) = meta_data r
         \<or> merge_jsonb_objects (meta_data r) (meta_data r)
             = map_option jsonb_strip_nulls (meta_data r)"
    using merge_objects_twice [of None "meta_data r"] assms by (simp add: typed_columns_def)
  have t'': "merge_jsonb_arrays pg (tags (insert_row n1 r)) (tags r) = Inr t'"
    using t' by (simp add: insert_row_def)
  show ?thesis
    using tt m
    by (simp add: updated_row_def do_update_explicit [OF t''] resynced_def)
       (simp add: insert_row_def)
qed

lemma set_staged_keys: "k \<in> set (staged_keys pg stg) \<longleftrightarrow> (\<exists>r \<in> set stg. index_key pg r = Some k)"
  by (induction stg) (auto split: option.splits)

lemma update_conflicting_typed:
  assumes "\<forall>old \<in> set img. typed_columns old" "typed_columns r"
  shows "update_conflicting pg now k r img =
           Inr (map (\<lambda>old. if index_key pg old = Some k then updated_row pg now old r else old) img)"
  using assms(1)
proof (induction img)
  case Nil
  then show ?case by simp
next
  case (Cons old rest)
  then have "do_update pg now old r = Inr (updated_row pg now old r)"
    using updated_row_typed [of old r pg now] assms(2) by simp
  with Cons show ?case by simp
qed

lemma upsert_rows_success_keys:
  "upsert_rows pg now stg touched img = Inr img'
   \<Longrightarrow> distinct (staged_keys pg stg) \<and> set (staged_keys pg stg) \<inter> set touched = {}"
proof (induction stg arbitrary: touched img)
  case Nil
  then show ?case by simp
next
  case (Cons r rs)
  show ?case
  proof (cases "index_key pg r")
    case None
    with Cons.prems have "upsert_rows pg now rs touched (img @ [insert_row now r]) = Inr img'"
      by simp
    from Cons.IH [OF this] None show ?thesis by simp
  next
    case (Some k)
    with Cons.prems have k: "k \<notin> set touched"
      by (auto split: if_splits)
    from Cons.prems Some k obtain img1 where
      "upsert_rows pg now rs (k # touched) img1 = Inr img'"
      by (auto split: if_splits sum.splits)
    from Cons.IH [OF this] Some k show ?thesis by auto
  qed
qed

lemma after_upsert_Cons_other:
  "index_key pg r = None \<or> index_key pg r \<noteq> index_key pg old
   \<Longrightarrow> after_upsert pg now (r # rs) old = after_upsert pg now rs old"
  by (auto simp: after_upsert_def staged_for_def)

lemma after_upsert_Cons_hit:
  "index_key pg r = Some k \<Longrightarrow> index_key pg old = Some k
   \<Longrightarrow> after_upsert pg now (r # rs) old = updated_row pg now old r"
  by (simp add: after_upsert_def staged_for_def)

lemma after_upsert_no_key:
  "index_key pg old = None \<or> (\<forall>r \<in> set rs. index_key pg r \<noteq> index_key pg old)
   \<Longrightarrow> after_upsert pg now rs old = old"
proof -
  assume "index_key pg old = None \<or> (\<forall>r \<in> set rs. index_key pg r \<noteq> index_key pg old)"
  then have "staged_for pg rs old = None"
    unfolding staged_for_def find_None_iff by auto
  then show ?thesis by (simp add: after_upsert_def)
qed

lemma keys_after_update:
  "index_key pg ` set (map (\<lambda>old. if index_key pg old = Some k
        then updated_row pg' now old r else old) img) = index_key pg ` set img"
  by (induction img) auto

lemma map_after_upsert_hit:
  assumes "\<forall>r' \<in> set rs. index_key pg r' \<noteq> Some k" "index_key pg r = Some k"
  shows "map (after_upsert pg now rs)
           (map (\<lambda>old. if index_key pg old = Some k then updated_row pg now old r else old) img)
         = map (after_upsert pg now (r # rs)) img"
proof (induction img)
  case Nil
  then show ?case by simp
next
  case (Cons old img)
  have "after_upsert pg now rs (if index_key pg old = Some k then updated_row pg now old r else old)
          = after_upsert pg now (r # rs) old"
  proof (cases "index_key pg old = Some k")
    case True
    have "after_upsert pg now rs (updated_row pg now old r) = updated_row pg now old r"
      by (rule after_upsert_no_key) (use assms(1) True in simp)
    with True assms(2) show ?thesis by (simp add: after_upsert_Cons_hit)
  next
    case False
    with assms(2) show ?thesis by (simp add: after_upsert_Cons_other)
  qed
  with Cons.IH show ?case by simp
qed

lemma map_after_upsert_miss:
  assumes "index_key pg r = None \<or> (\<forall>old \<in> set img. index_key pg old \<noteq> index_key pg r)"
  shows "map (after_upsert pg now (r # rs)) img = map (after_upsert pg now rs) img"
proof (rule map_cong [OF refl])
  fix old assume "old \<in> set img"
  with assms have "index_key pg r = None \<or> index_key pg r \<noteq> index_key pg old" by auto
  then show "after_upsert pg now (r # rs) old = after_upsert pg now rs old"
    by (rule after_upsert_Cons_other)
qed

lemma inserted_rows_Cons_new:
  "index_key pg r = None \<or> index_key pg r \<notin> index_key pg ` set img
   \<Longrightarrow> inserted_rows pg now (r # rs) img = insert_row now r # inserted_rows pg now rs img"
  by (simp add: inserted_rows_def)

lemma inserted_rows_Cons_conflict:
  "index_key pg r = Some k \<Longrightarrow> Some k \<in> index_key pg ` set img
   \<Longrightarrow> inserted_rows pg now (r # rs) img = inserted_rows pg now rs img"
  by (simp add: inserted_rows_def)

lemma inserted_rows_cong:
  assumes "\<forall>r \<in> set rs. \<forall>k. index_key pg r = Some k
             \<longrightarrow> (Some k \<in> index_key pg ` set img \<longleftrightarrow> Some k \<in> index_key pg ` set img')"
  shows "inserted_rows pg now rs img = inserted_rows pg now rs img'"
  unfolding inserted_rows_def
proof (rule arg_cong [where f = "map (insert_row now)"], rule filter_cong [OF refl])
  fix r assume r: "r \<in> set rs"
  show "(index_key pg r = None \<or> index_key pg r \<notin> index_key pg ` set img)
      = (index_key pg r = None \<or> index_key pg r \<notin> index_key pg ` set img')"
  proof (cases "index_key pg r")
    case None
    then show ?thesis by simp
  next
    case (Some k)
    with assms r have "Some k \<in> index_key pg ` set img \<longleftrightarrow> Some k \<in> index_key pg ` set img'"
      by blast
    with Some show ?thesis by simp
  qed
qed

lemma inserted_rows_after_insert:
  assumes "\<forall>r' \<in> set rs. index_key pg r' = None \<or> index_key pg r' \<noteq> index_key pg r"
  shows "inserted_rows pg now rs (img @ [insert_row now' r]) = inserted_rows pg now rs img"
proof (rule inserted_rows_cong, intro ballI allI impI)
  fix r' k assume "r' \<in> set rs" "index_key pg r' = Some k"
  with assms have "index_key pg r \<noteq> Some k" by force
  then show "Some k \<in> index_key pg ` set (img @ [insert_row now' r])
             \<longleftrightarrow> Some k \<in> index_key pg ` set img"
    by auto
qed

lemma upsert_rows_closed_form:
  assumes "\<forall>r \<in> set stg. typed_columns r" "\<forall>old \<in> set img. typed_columns old"
    and "distinct (staged_keys pg stg)" "set (staged_keys pg stg) \<inter> set touched = {}"
  shows "upsert_rows pg now stg touched img =
           Inr (map (after_upsert pg now stg) img @ inserted_rows pg now stg img)"
  using assms
proof (induction stg arbitrary: touched img)
  case Nil
  have "map (after_upsert pg now []) img = img"
    by (rule map_idI) (simp add: after_upsert_def staged_for_def)
  then show ?case
    by (simp add: inserted_rows_def)
next
  case (Cons r rs)
  have typed_rs: "\<forall>r \<in> set rs. typed_columns r" and typed_r: "typed_columns r"
    using Cons.prems(1) by simp_all
  have typed': "\<forall>old \<in> set (img @ [insert_row now r]). typed_columns old"
    using Cons.prems(2) typed_r by simp
  show ?case
  proof (cases "index_key pg r")
    case None
    have keys: "distinct (staged_keys pg rs)" "set (staged_keys pg rs) \<inter> set touched = {}"
      using Cons.prems(3,4) None by simp_all
    have a: "map (after_upsert pg now (r # rs)) img = map (after_upsert pg now rs) img"
      by (rule map_after_upsert_miss) (simp add: None)
    have b: "after_upsert pg now rs (insert_row now r) = insert_row now r"
      by (rule after_upsert_no_key) (simp add: None)
    have c: "inserted_rows pg now rs (img @ [insert_row now r]) = inserted_rows pg now rs img"
      by (rule inserted_rows_after_insert) (use None in force)
    have d: "inserted_rows pg now (r # rs) img = insert_row now r # inserted_rows pg now rs img"
      by (rule inserted_rows_Cons_new) (simp add: None)
    have "upsert_rows pg now (r # rs) touched img
            = upsert_rows pg now rs touched (img @ [insert_row now r])"
      by (simp add: None)
    also have "\<dots> = Inr (map (after_upsert pg now rs) (img @ [insert_row now r])
                       @ inserted_rows pg now rs (img @ [insert_row now r]))"
      by (rule Cons.IH [OF typed_rs typed' keys])
    also have "\<dots> = Inr (map (after_upsert pg now (r # rs)) img @ inserted_rows pg now (r # rs) img)"
      unfolding a c d by (simp add: b)
    finally show ?thesis .
  next
    case (Some k)
    have k: "k \<notin> set touched" "k \<notin> set (staged_keys pg rs)"
      and keys: "distinct (staged_keys pg rs)"
        "set (staged_keys pg rs) \<inter> set (k # touched) = {}"
      using Cons.prems(3,4) Some by auto
    have nokey: "\<forall>r' \<in> set rs. index_key pg r' \<noteq> Some k"
      using k(2) by (simp add: set_staged_keys)
    show ?thesis
    proof (cases "\<exists>old \<in> set img. index_key pg old = Some k")
      case True
      let ?img1 = "map (\<lambda>old. if index_key pg old = Some k then updated_row pg now old r else old) img"
      have upd: "update_conflicting pg now k r img = Inr ?img1"
        by (rule update_conflicting_typed [OF Cons.prems(2) typed_r])
      have typed1: "\<forall>old \<in> set ?img1. typed_columns old"
        using Cons.prems(2) typed_r updated_row_typed [of _ r pg now] by auto
      have a: "map (after_upsert pg now rs) ?img1 = map (after_upsert pg now (r # rs)) img"
        by (rule map_after_upsert_hit [OF nokey Some])
      have "inserted_rows pg now rs ?img1 = inserted_rows pg now rs img"
        by (rule inserted_rows_cong) (simp only: keys_after_update, simp)
      moreover have "Some k \<in> index_key pg ` set img"
        using True by force
      ultimately have c: "inserted_rows pg now rs ?img1 = inserted_rows pg now (r # rs) img"
        using inserted_rows_Cons_conflict [OF Some, of img now rs] by simp
      have "upsert_rows pg now (r # rs) touched img = upsert_rows pg now rs (k # touched) ?img1"
        using Some k(1) True upd by simp
      also have "\<dots> = Inr (map (after_upsert pg now rs) ?img1 @ inserted_rows pg now rs ?img1)"
        by (rule Cons.IH [OF typed_rs typed1 keys])
      finally show ?thesis
        unfolding a c .
    next
      case False
      then have notin: "index_key pg r \<notin> index_key pg ` set img"
        using Some by force
      have a: "map (after_upsert pg now (r # rs)) img = map (after_upsert pg now rs) img"
        by (rule map_after_upsert_miss) (use notin in force)
      have b: "after_upsert pg now rs (insert_row now r) = insert_row now r"
        by (rule after_upsert_no_key) (use nokey Some in simp)
      have c: "inserted_rows pg now rs (img @ [insert_row now r]) = inserted_rows pg now rs img"
        by (rule inserted_rows_after_insert) (use nokey Some in simp)
      have d: "inserted_rows pg now (r # rs) img = insert_row now r # inserted_rows pg now rs img"
        by (rule inserted_rows_Cons_new) (use notin in simp)
      have "upsert_rows pg now (r # rs) touched img
              = upsert_rows pg now rs (k # touched) (img @ [insert_row now r])"
        using Some k(1) False by simp
      also have "\<dots> = Inr (map (after_upsert pg now rs) (img @ [insert_row now r])
                         @ inserted_rows pg now rs (img @ [insert_row now r]))"
        by (rule Cons.IH [OF typed_rs typed' keys])
      also have "\<dots> = Inr (map (after_upsert pg now (r # rs)) img @ inserted_rows pg now (r # rs) img)"
        unfolding a c d by (simp add: b)
      finally show ?thesis .
    qed
  qed
qed

lemma staged_for_key_cong:
  "index_key pg old' = index_key pg old \<Longrightarrow> staged_for pg stg old' = staged_for pg stg old"
  by (simp add: staged_for_def)

lemma staged_for_in_set: "staged_for pg stg old = Some r \<Longrightarrow> r \<in> set stg"
  unfolding staged_for_def by (auto simp: find_Some_iff)

lemma after_upsert_typed:
  assumes "\<forall>r \<in> set stg. typed_columns r" "typed_columns old"
  shows "typed_columns (after_upsert pg now stg old)"
proof (cases "staged_for pg stg old")
  case None
  then show ?thesis using assms(2) by (simp add: after_upsert_def)
next
  case (Some r)
  then have "typed_columns r" using assms(1) staged_for_in_set by blast
  with Some assms(2) show ?thesis
    by (simp add: after_upsert_def updated_row_typed)
qed

lemma after_upsert_key [simp]: "index_key pg (after_upsert pg now stg old) = index_key pg old"
  by (simp add: after_upsert_def split: option.splits)

lemma after_upsert_again:
  assumes "\<forall>r \<in> set stg. typed_columns r" "typed_columns c0"
  shows "resynced (after_upsert pg n1 stg c0) (after_upsert pg n2 stg (after_upsert pg n1 stg c0))"
proof -
  have same: "staged_for pg stg (after_upsert pg n1 stg c0) = staged_for pg stg c0"
    by (rule staged_for_key_cong) simp
  show ?thesis
  proof (cases "staged_for pg stg c0")
    case None
    then show ?thesis using same by (simp add: after_upsert_def resynced_refl)
  next
    case (Some r)
    then have "typed_columns r" using assms(1) staged_for_in_set by blast
    from updated_row_again [OF assms(2) this, of pg n1 n2] Some same
    show ?thesis by (simp add: after_upsert_def)
  qed
qed

lemma find_staged_row:
  "distinct (staged_keys pg stg) \<Longrightarrow> r \<in> set stg \<Longrightarrow> index_key pg r = Some k
   \<Longrightarrow> find (\<lambda>r'. index_key pg r' \<noteq> None \<and> index_key pg r' = Some k) stg = Some r"
proof (induction stg)
  case Nil
  then show ?case by simp
next
  case (Cons x xs)
  show ?case
  proof (cases "index_key pg x = Some k")
    case True
    with Cons.prems(1) have "k \<notin> set (staged_keys pg xs)" by simp
    then have "r \<notin> set xs"
      using Cons.prems(3) set_staged_keys by blast
    with Cons.prems(2) have "r = x" by simp
    with True show ?thesis by simp
  next
    case False
    with Cons.prems have "r \<in> set xs" "distinct (staged_keys pg xs)"
      by (auto split: option.splits)
    from Cons.IH [OF this(2,1) Cons.prems(3)] False show ?thesis by simp
  qed
qed

lemma after_upsert_inserted:
  assumes "distinct (staged_keys pg stg)" "r \<in> set stg" "typed_columns r"
  shows "resynced (insert_row n1 r) (after_upsert pg n2 stg (insert_row n1 r))"
proof (cases "index_key pg r")
  case None
  then have "after_upsert pg n2 stg (insert_row n1 r) = insert_row n1 r"
    by (intro after_upsert_no_key) simp
  then show ?thesis by (simp add: resynced_refl)
next
  case (Some k)
  have "staged_for pg stg (insert_row n1 r) = Some r"
    using find_staged_row [OF assms(1,2) Some] Some by (simp add: staged_for_def)
  then show ?thesis
    using updated_row_after_insert [OF assms(3), of n1 pg n2] by (simp add: after_upsert_def)
qed

lemma upsert_twice_rows:
  assumes typed: "\<forall>r \<in> set stg. typed_columns r" "\<forall>c \<in> set cat. typed_columns c"
    and first: "upsert_records_to_image_table pg now1 stg cat = Inr cat1"
  shows "upsert_records_to_image_table pg now2 stg cat1 =
           Inr (map (after_upsert pg now2 stg) cat1 @ inserted_rows pg now2 stg cat1)
       \<and> (\<forall>c \<in> set cat1. resynced c (after_upsert pg now2 stg c))"
proof -
  from first have run1: "upsert_rows pg now1 stg [] cat = Inr cat1"
    by (simp add: upsert_records_to_image_table_def)
  from upsert_rows_success_keys [OF run1]
  have keys: "distinct (staged_keys pg stg)" "set (staged_keys pg stg) \<inter> set [] = {}"
    by simp_all
  from upsert_rows_closed_form [OF typed keys, of now1] run1
  have cat1: "cat1 = map (after_upsert pg now1 stg) cat @ inserted_rows pg now1 stg cat"
    by simp
  have typed1: "\<forall>c \<in> set cat1. typed_columns c"
    unfolding cat1 using typed after_upsert_typed [OF typed(1), of _ pg now1]
    by (auto simp: inserted_rows_def)
  have run2: "upsert_records_to_image_table pg now2 stg cat1 =
           Inr (map (after_upsert pg now2 stg) cat1 @ inserted_rows pg now2 stg cat1)"
    unfolding upsert_records_to_image_table_def
    by (rule upsert_rows_closed_form [OF typed(1) typed1 keys])
  have "resynced c (after_upsert pg now2 stg c)" if "c \<in> set cat1" for c
  proof -
    from that cat1 consider
      (old) c0 where "c0 \<in> set cat" "c = after_upsert pg now1 stg c0"
      | (new) r where "r \<in> set stg" "c = insert_row now1 r"
      by (auto simp: inserted_rows_def)
    then show ?thesis
    proof cases
      case old
      with after_upsert_again [OF typed(1), of c0 pg now1 now2] typed(2)
      show ?thesis by simp
    next
      case new
      with after_upsert_inserted [OF keys(1), of r now1 now2] typed(1)
      show ?thesis by simp
    qed
  qed
  with run2 show ?thesis by blast
qed

lemma staged_key_in_catalog_after_upsert:
  assumes "r \<in> set stg" "index_key pg r = Some k"
  shows "Some k \<in> index_key pg ` set (map (after_upsert pg now stg) cat @ inserted_rows pg now stg cat)"
proof (cases "Some k \<in> index_key pg ` set cat")
  case True
  then obtain c0 where "c0 \<in> set cat" "index_key pg c0 = Some k" by force
  then have "index_key pg (after_upsert pg now stg c0) = Some k" by simp
  with \<open>c0 \<in> set cat\<close> show ?thesis by force
next
  case False
  with assms have "insert_row now r \<in> set (inserted_rows pg now stg cat)"
    by (simp add: inserted_rows_def)
  moreover have "index_key pg (insert_row now r) = Some k" using assms(2) by simp
  ultimately show ?thesis by force
qed

lemma inserted_rows_second_run:
  assumes "cat1 = map (after_upsert pg now1 stg) cat @ inserted_rows pg now1 stg cat"
  shows "inserted_rows pg now2 stg cat1 =
           map (insert_row now2) (filter (\<lambda>r. index_key pg r = None) stg)"
proof -
  have "(index_key pg r = None \<or> index_key pg r \<notin> index_key pg ` set cat1)
          = (index_key pg r = None)" if "r \<in> set stg" for r
  proof (cases "index_key pg r")
    case None
    then show ?thesis by simp
  next
    case (Some k)
    from staged_key_in_catalog_after_upsert [OF that Some, of now1 cat] Some
    show ?thesis unfolding assms by simp
  qed
  then have "filter (\<lambda>r. index_key pg r = None \<or> index_key pg r \<notin> index_key pg ` set cat1) stg
      = filter (\<lambda>r. index_key pg r = None) stg"
    by (intro filter_cong) auto
  then show ?thesis by (simp add: inserted_rows_def)
qed

lemma upsert_twice_closed_form:
  assumes typed: "\<forall>r \<in> set stg. typed_columns r" "\<forall>c \<in> set cat. typed_columns c"
    and first: "upsert_records_to_image_table pg now1 stg cat = Inr cat1"
  shows "upsert_records_to_image_table pg now2 stg cat1 =
           Inr (map (after_upsert pg now2 stg) cat1
                @ map (insert_row now2) (filter (\<lambda>r. index_key pg r = None) stg))
       \<and> (\<forall>c \<in> set cat1. resynced c (after_upsert pg now2 stg c))"
proof -
  from first have run1: "upsert_rows pg now1 stg [] cat = Inr cat1"
    by (simp add: upsert_records_to_image_table_def)
  from upsert_rows_success_keys [OF run1]
  have keys: "distinct (staged_keys pg stg)" "set (staged_keys pg stg) \<inter> set [] = {}"
    by simp_all
  from upsert_rows_closed_form [OF typed keys, of now1] run1
  have cat1: "cat1 = map (after_upsert pg now1 stg) cat @ inserted_rows pg now1 stg cat"
    by simp
  from upsert_twice_rows [OF assms, of now2] inserted_rows_second_run [OF cat1, of now2]
  show ?thesis by simp
qed

text \<open>
  Claim C1, as the code has it. Let the metadata of every staging and catalog row be a
  JSON object or NULL and the tags a JSON array or NULL. When a first upsert of a batch
  succeeds, a second upsert of the same batch succeeds too, and every row the first
  run left in the catalog keeps every column except \<^verbatim>\<open>updated_on\<close> and
  \<^verbatim>\<open>last_synced\<close>, with two exceptions: the metadata is either unchanged or replaced
  by its null-stripped form (\<^verbatim>\<open>jsonb_strip_nulls\<close>), and the tags are either unchanged
  or replaced by an array of the same elements without duplicates. The rows that the
  second run appends to the catalog are exactly the staging rows whose key has a NULL
  part, in the order of the batch, stored as an \<^verbatim>\<open>INSERT\<close> stores them: these rows
  conflict with nothing. No other row is inserted again.
\<close>

theorem upsert_twice_changes_only_timestamps_and_normalises:
  assumes "\<forall>r \<in> set stg. typed_columns r" and "\<forall>c \<in> set cat. typed_columns c"
    and "upsert_records_to_image_table pg now1 stg cat = Inr cat1"
  shows "\<exists>cat2. upsert_records_to_image_table pg now2 stg cat1 = Inr cat2
     \<and> length cat2 = length cat1 + length (filter (\<lambda>r. index_key pg r = None) stg)
     \<and> drop (length cat1) cat2 = map (insert_row now2) (filter (\<lambda>r. index_key pg r = None) stg)
     \<and> (\<forall>i < length cat1.
          (cat2 ! i)\<lparr> updated_on := updated_on (cat1 ! i), last_synced := last_synced (cat1 ! i),
              meta_data := meta_data (cat1 ! i), tags := tags (cat1 ! i) \<rparr> = cat1 ! i
          \<and> (meta_data (cat2 ! i) = meta_data (cat1 ! i)
               \<or> meta_data (cat2 ! i) = map_option jsonb_strip_nulls (meta_data (cat1 ! i)))
          \<and> (tags (cat2 ! i) = tags (cat1 ! i)
               \<or> (\<exists>xs zs. tags (cat1 ! i) = Some (JArray xs) \<and> tags (cat2 ! i) = Some (JArray zs)
                     \<and> set zs = set xs \<and> distinct zs)))"
proof -
  let ?new = "map (insert_row now2) (filter (\<lambda>r. index_key pg r = None) stg)"
  let ?cat2 = "map (after_upsert pg now2 stg) cat1 @ ?new"
  from upsert_twice_closed_form [OF assms, of now2]
  have run2: "upsert_records_to_image_table pg now2 stg cat1 = Inr ?cat2"
    and rel: "\<forall>c \<in> set cat1. resynced c (after_upsert pg now2 stg c)"
    by blast+
  have "resynced (cat1 ! i) (?cat2 ! i)" if "i < length cat1" for i
    using that rel by (simp add: nth_append)
  then have "\<forall>i < length cat1.
          (?cat2 ! i)\<lparr> updated_on := updated_on (cat1 ! i), last_synced := last_synced (cat1 ! i),
              meta_data := meta_data (cat1 ! i), tags := tags (cat1 ! i) \<rparr> = cat1 ! i
          \<and> (meta_data (?cat2 ! i) = meta_data (cat1 ! i)
               \<or> meta_data (?cat2 ! i) = map_option jsonb_strip_nulls (meta_data (cat1 ! i)))
          \<and> (tags (?cat2 ! i) = tags (cat1 ! i)
               \<or> (\<exists>xs zs. tags (cat1 ! i) = Some (JArray xs) \<and> tags (?cat2 ! i) = Some (JArray zs)
                     \<and> set zs = set xs \<and> distinct zs))"
    unfolding resynced_def by blast
  moreover have "length ?cat2 = length cat1 + length (filter (\<lambda>r. index_key pg r = None) stg)"
    by simp
  moreover have "drop (length cat1) ?cat2 = ?new" by simp
  ultimately show ?thesis using run2 by blast
qed

lemma example_42_keys:
  "index_key plain_postgres incoming_42 = Some (''rawpixel'', ''42'')"
  "index_key plain_postgres existing_42 = Some (''rawpixel'', ''42'')"
  by (simp_all add: index_key_def incoming_42_def existing_42_def blank_row_def insert_row_def
      plain_postgres_def)

lemma example_42_typed: "typed_columns incoming_42" "typed_columns existing_42"
  by (simp_all add: typed_columns_def incoming_42_def existing_42_def blank_row_def insert_row_def)

lemma upsert_42:
  "upsert_records_to_image_table plain_postgres 2 [incoming_42] [existing_42] = Inr [merged_42]"
  by (simp add: upsert_records_to_image_table_def example_42_keys do_update_42)

lemma blank_row_key: "index_key plain_postgres blank_row = None"
  by (simp add: index_key_def blank_row_def)

lemma upsert_42_and_blank:
  "upsert_records_to_image_table plain_postgres 2 [incoming_42, blank_row] [existing_42]
     = Inr [merged_42, insert_row 2 blank_row]"
  by (simp add: upsert_records_to_image_table_def example_42_keys do_update_42 blank_row_key)

text \<open>
  The example of the specification upserted twice, in a batch with a second row that
  has no key: the second run keeps width 800 and the creation time of the row, and
  appends the row without a key once more.
\<close>

theorem upsert_twice_witness:
  "typed_columns incoming_42 \<and> typed_columns blank_row \<and> typed_columns existing_42
   \<and> upsert_records_to_image_table plain_postgres 2 [incoming_42, blank_row] [existing_42]
       = Inr [merged_42, insert_row 2 blank_row]
   \<and> (\<exists>cat2. upsert_records_to_image_table plain_postgres 3 [incoming_42, blank_row]
                 [merged_42, insert_row 2 blank_row] = Inr cat2
         \<and> length cat2 = 3 \<and> drop 2 cat2 = [insert_row 3 blank_row]
         \<and> width (cat2 ! 0) = Some 800 \<and> created_on (cat2 ! 0) = Some 1)"
proof -
  have tb: "typed_columns blank_row" by (simp add: typed_columns_def blank_row_def)
  have t1: "\<forall>r \<in> set [incoming_42, blank_row]. typed_columns r"
    and t2: "\<forall>c \<in> set [existing_42]. typed_columns c"
    by (simp_all add: example_42_typed tb)
  have nulls: "filter (\<lambda>r. index_key plain_postgres r = None) [incoming_42, blank_row] = [blank_row]"
    by (simp add: example_42_keys blank_row_key)
  from upsert_twice_changes_only_timestamps_and_normalises [OF t1 t2 upsert_42_and_blank, of 3]
  obtain cat2 where run2: "upsert_records_to_image_table plain_postgres 3 [incoming_42, blank_row]
                 [merged_42, insert_row 2 blank_row] = Inr cat2"
    and len: "length cat2 = length [merged_42, insert_row 2 blank_row]
                + length (filter (\<lambda>r. index_key plain_postgres r = None) [incoming_42, blank_row])"
    and new: "drop (length [merged_42, insert_row 2 blank_row]) cat2
                = map (insert_row 3) (filter (\<lambda>r. index_key plain_postgres r = None) [incoming_42, blank_row])"
    and same: "(cat2 ! 0)\<lparr> updated_on := updated_on ([merged_42, insert_row 2 blank_row] ! 0),
                  last_synced := last_synced ([merged_42, insert_row 2 blank_row] ! 0),
                  meta_data := meta_data ([merged_42, insert_row 2 blank_row] ! 0),
                  tags := tags ([merged_42, insert_row 2 blank_row] ! 0) \<rparr>
                = [merged_42, insert_row 2 blank_row] ! 0"
    by auto
  have "width (cat2 ! 0) = width merged_42"
    using arg_cong [OF same, of width] by simp
  moreover have "created_on (cat2 ! 0) = created_on merged_42"
    using arg_cong [OF same, of created_on] by simp
  moreover have "width merged_42 = Some 800" "created_on merged_42 = Some 1"
    by (simp_all add: merged_42_def existing_42_def blank_row_def insert_row_def)
  moreover have "length cat2 = 3" using len unfolding nulls by simp
  moreover have "drop 2 cat2 = [insert_row 3 blank_row]"
    using new unfolding nulls by (simp add: numeral_2_eq_2)
  ultimately show ?thesis
    using example_42_typed tb upsert_42_and_blank run2 by auto
qed

text \<open>
  The claim as written fails on a fresh insert: the \<^verbatim>\<open>INSERT\<close> stores the staging
  metadata \<^verbatim>\<open>{"c": null}\<close> and the tags \<^verbatim>\<open>["sea", "sea"]\<close> as they are, and the second
  run of the same batch changes them to \<^verbatim>\<open>{}\<close> and \<^verbatim>\<open>["sea"]\<close>.
\<close>

theorem upsert_twice_counterexample:
  "upsert_records_to_image_table plain_postgres 1 [resync_row] [] = Inr [insert_row 1 resync_row]
   \<and> upsert_records_to_image_table plain_postgres 2 [resync_row] [insert_row 1 resync_row]
       = Inr [(insert_row 1 resync_row)\<lparr> updated_on := Some 2, last_synced := Some 2,
                meta_data := Some (JObject fmempty),
                tags := Some (JArray [JString ''sea'']) \<rparr>]
   \<and> meta_data (insert_row 1 resync_row) = Some (JObject (fmupd ''c'' JNull fmempty))
   \<and> JObject (fmupd ''c'' JNull fmempty) \<noteq> JObject fmempty
   \<and> tags (insert_row 1 resync_row) = Some (JArray [JString ''sea'', JString ''sea''])"
  by (simp add: upsert_records_to_image_table_def index_key_def do_update_def resync_row_def
      blank_row_def insert_row_def plain_postgres_def merge_jsonb_arrays_def
      merge_jsonb_objects_def sql_concat_def jsonb_agg_distinct_def newest_non_null_def
      fmmap_fmupd)

section \<open>The reclassifier raises on an ambiguous or unknown classification\<close>

lemma europeana_loop_raises:
  "selected \<in> set records \<Longrightarrow> europeana_check py sp selected \<noteq> None
   \<Longrightarrow> snd (europeana_loop pg py d sp records img) \<noteq> None"
proof (induction records arbitrary: img)
  case Nil
  then show ?case by simp
next
  case (Cons r rs)
  show ?case
  proof (cases "europeana_check py sp r")
    case None
    with Cons.prems have in_rest: "selected \<in> set rs" by auto
    show ?thesis
    proof (cases "update_source pg d (fst r) (snd (snd r)) img")
      case (Inl e)
      with None show ?thesis by simp
    next
      case (Inr img')
      from Cons.IH [OF in_rest Cons.prems(2), of img'] None Inr show ?thesis by simp
    qed
  next
    case (Some e)
    then show ?thesis by simp
  qed
qed

lemma smithsonian_loop_raises:
  "(fid, unit_code) \<in> set records \<Longrightarrow> find_source sp unit_code = None
   \<Longrightarrow> snd (smithsonian_loop pg d sp records img) \<noteq> None"
proof (induction records arbitrary: img)
  case Nil
  then show ?case by simp
next
  case (Cons r rs)
  obtain f u where r: "r = (f, u)" by (cases r)
  show ?case
  proof (cases "find_source sp u")
    case None
    then show ?thesis by (simp add: r)
  next
    case (Some s)
    with Cons.prems r have in_rest: "(fid, unit_code) \<in> set rs" by auto
    show ?thesis
    proof (cases "update_source pg d f s img")
      case (Inl e)
      with Some show ?thesis by (simp add: r)
    next
      case (Inr img')
      from Cons.IH [OF in_rest Cons.prems(2), of img'] Some Inr show ?thesis by (simp add: r)
    qed
  qed
qed

lemma sql_eq_Some [simp]: "sql_eq a (Some y) \<longleftrightarrow> a = Some y"
  by (cases a) (simp_all add: sql_eq_def)

lemma update_source_plain:
  "plain sub \<Longrightarrow> plain d \<Longrightarrow> plain (py_format fid)
   \<Longrightarrow> update_source pg d fid sub img = Inr (set_source pg d fid sub img)"
  by (simp add: update_source_def)

lemma update_source_with_quote:
  "update_source array_postgres ''flickr'' (Some (''o'' @ [CHR 0x27] @ ''neil'')) ''spacex'' img
     = Inl SqlSyntaxError"
  by (simp add: update_source_def plain_def py_format_def array_postgres_def)

lemma find_source_name:
  "find_source sp unit_code = Some s \<Longrightarrow> s \<in> fst ` set sp"
proof -
  assume a: "find_source sp unit_code = Some s"
  then obtain u where u: "unit_code = Some u" by (cases unit_code) (simp_all add: find_source_def)
  with a obtain entry where "find (\<lambda>(s, unit_codes). u \<in> set unit_codes) sp = Some entry"
    "fst entry = s"
    by (auto simp: find_source_def)
  then obtain i where "i < length sp" "sp ! i = entry" by (auto simp: find_Some_iff)
  then have "entry \<in> set sp" using nth_mem [of i sp] by simp
  with \<open>fst entry = s\<close> show ?thesis by force
qed

lemma smithsonian_select_plain:
  "plain_foreign_ids d img \<Longrightarrow> selected \<in> set (smithsonian_select pg d img)
   \<Longrightarrow> plain (py_format (fst selected))"
  by (auto simp: smithsonian_select_def plain_foreign_ids_def)

lemma smithsonian_loop_raises_exception:
  "plain d \<Longrightarrow> plain_names sp \<Longrightarrow> \<forall>selected \<in> set records. plain (py_format (fst selected))
   \<Longrightarrow> (fid, unit_code) \<in> set records \<Longrightarrow> find_source sp unit_code = None
   \<Longrightarrow> snd (smithsonian_loop pg d sp records img) = Some PyException"
proof (induction records arbitrary: img)
  case Nil
  then show ?case by simp
next
  case (Cons r rs)
  obtain f u where r: "r = (f, u)" by (cases r)
  show ?case
  proof (cases "find_source sp u")
    case None
    then show ?thesis by (simp add: r)
  next
    case (Some s)
    with Cons.prems r have in_rest: "(fid, unit_code) \<in> set rs" by auto
    have "plain s" using find_source_name [OF Some] Cons.prems(2) by (auto simp: plain_names_def)
    moreover have "plain (py_format f)" using Cons.prems(3) r by simp
    ultimately have upd: "update_source pg d f s img = Inr (set_source pg d f s img)"
      using Cons.prems(1) by (intro update_source_plain)
    have rest_plain: "\<forall>selected \<in> set rs. plain (py_format (fst selected))"
      using Cons.prems(3) by simp
    from Cons.IH [OF Cons.prems(1,2) rest_plain in_rest Cons.prems(5), of "set_source pg d f s img"]
      Some upd
    show ?thesis by (simp add: r)
  qed
qed

text \<open>
  Claim C9. When a record selected by the Europeana pass has more than one eligible
  sub-provider, the check of that record raises, and the pass ends with an exception.
  When a record selected by the Smithsonian pass has a unit code that no sub-provider
  lists, the loop raises the exception of the unknown unit code at that record, and the
  pass ends with an exception; it is that exception when the names and the selected
  foreign identifiers are plain, so that no \<^verbatim>\<open>UPDATE\<close> before it raises. The
  exception is the result of the pass: no record after it is processed and nothing
  catches it.
\<close>

theorem reclassifier_raises_on_ambiguous_or_unknown:
  "((fid, Some t, sub_provider)
        \<in> set (europeana_select pg d (create_temp_europeana_sub_prov_table sp) img)
      \<and> json_loads py t = Inr data_providers
      \<and> eligible_sub_providers sp data_providers = Inr es \<and> 1 < length (remdups es)
    \<longrightarrow> europeana_check py sp (fid, Some t, sub_provider) = Some PyException
        \<and> snd (update_europeana_sub_providers pg py d sp img) \<noteq> None)
   \<and> ((fid', unit_code) \<in> set (smithsonian_select pg d' img')
        \<and> find_source sp' unit_code = None
      \<longrightarrow> smithsonian_loop pg d' sp' ((fid', unit_code) # later) table = (table, Some PyException)
          \<and> snd (update_smithsonian_sub_providers pg d' sp' img') \<noteq> None
          \<and> (plain d' \<and> plain_names sp' \<and> plain_foreign_ids d' img'
              \<longrightarrow> snd (update_smithsonian_sub_providers pg d' sp' img') = Some PyException))"
proof (intro conjI impI)
  assume a: "(fid, Some t, sub_provider)
        \<in> set (europeana_select pg d (create_temp_europeana_sub_prov_table sp) img)
      \<and> json_loads py t = Inr data_providers
      \<and> eligible_sub_providers sp data_providers = Inr es \<and> 1 < length (remdups es)"
  then show c: "europeana_check py sp (fid, Some t, sub_provider) = Some PyException"
    by (simp add: europeana_check_def)
  from a have "(fid, Some t, sub_provider)
        \<in> set (europeana_select pg d (create_temp_europeana_sub_prov_table sp) img)"
    by simp
  from europeana_loop_raises [OF this, of py sp pg d img] c
  show "snd (update_europeana_sub_providers pg py d sp img) \<noteq> None"
    by (simp add: update_europeana_sub_providers_def)
next
  assume a: "(fid', unit_code) \<in> set (smithsonian_select pg d' img')
        \<and> find_source sp' unit_code = None"
  then show "smithsonian_loop pg d' sp' ((fid', unit_code) # later) table
               = (table, Some PyException)"
    by simp
  from a show "snd (update_smithsonian_sub_providers pg d' sp' img') \<noteq> None"
    using smithsonian_loop_raises [of fid' unit_code _ sp' pg d' img']
    by (simp add: update_smithsonian_sub_providers_def)
  assume p: "plain d' \<and> plain_names sp' \<and> plain_foreign_ids d' img'"
  then have "\<forall>selected \<in> set (smithsonian_select pg d' img'). plain (py_format (fst selected))"
    using smithsonian_select_plain by blast
  with a p show "snd (update_smithsonian_sub_providers pg d' sp' img') = Some PyException"
    using smithsonian_loop_raises_exception [of d' sp' _ fid' unit_code pg img']
    by (simp add: update_smithsonian_sub_providers_def)
qed

lemma ambiguous_selected:
  "europeana_select array_postgres ''europeana''
     (create_temp_europeana_sub_prov_table europeana_subs) [ambiguous_row]
   = [(Some ''e1'', Some ''[A, B]'', ''sub_a''), (Some ''e1'', Some ''[A, B]'', ''sub_b'')]"
  by (simp add: europeana_select_def create_temp_europeana_sub_prov_table_def europeana_subs_def
      ambiguous_row_def blank_row_def insert_row_def jsonb_exists_def jsonb_field_def
      jsonb_field_text_def array_postgres_def)

lemma ambiguous_eligible:
  "json_loads plain_python ''[A, B]'' = Inr (JArray [JString ''A'', JString ''B''])"
  "eligible_sub_providers europeana_subs (JArray [JString ''A'', JString ''B''])
     = Inr [''sub_a'', ''sub_b'']"
  by (simp_all add: plain_python_def europeana_subs_def py_in_def)

lemma unknown_unit_selected:
  "smithsonian_select array_postgres ''smithsonian'' [unknown_unit_row] = [(Some ''s1'', Some ''XYZ'')]"
  "find_source smithsonian_subs (Some ''XYZ'') = None"
  by (simp_all add: smithsonian_select_def unknown_unit_row_def blank_row_def insert_row_def
      jsonb_field_def jsonb_field_text_def find_source_def smithsonian_subs_def)

lemma unknown_unit_plain:
  "plain ''smithsonian''" "plain_names smithsonian_subs"
  "plain_foreign_ids ''smithsonian'' [unknown_unit_row]"
  by (simp_all add: plain_def plain_names_def plain_foreign_ids_def smithsonian_subs_def
      unknown_unit_row_def blank_row_def insert_row_def py_format_def)

text \<open>
  A Europeana row whose data providers match two sub-providers, and a Smithsonian row
  with the unit code XYZ that no sub-provider lists.
\<close>

theorem reclassifier_raises_witness:
  "europeana_select array_postgres ''europeana''
     (create_temp_europeana_sub_prov_table europeana_subs) [ambiguous_row]
     = [(Some ''e1'', Some ''[A, B]'', ''sub_a''), (Some ''e1'', Some ''[A, B]'', ''sub_b'')]
   \<and> eligible_sub_providers europeana_subs (JArray [JString ''A'', JString ''B''])
       = Inr [''sub_a'', ''sub_b'']
   \<and> snd (update_europeana_sub_providers array_postgres plain_python ''europeana''
            europeana_subs [ambiguous_row]) \<noteq> None
   \<and> smithsonian_select array_postgres ''smithsonian'' [unknown_unit_row]
       = [(Some ''s1'', Some ''XYZ'')]
   \<and> find_source smithsonian_subs (Some ''XYZ'') = None
   \<and> snd (update_smithsonian_sub_providers array_postgres ''smithsonian''
            smithsonian_subs [unknown_unit_row]) = Some PyException"
proof -
  have e: "(Some ''e1'', Some ''[A, B]'', ''sub_a'')
        \<in> set (europeana_select array_postgres ''europeana''
                 (create_temp_europeana_sub_prov_table europeana_subs) [ambiguous_row])
      \<and> json_loads plain_python ''[A, B]'' = Inr (JArray [JString ''A'', JString ''B''])
      \<and> eligible_sub_providers europeana_subs (JArray [JString ''A'', JString ''B''])
          = Inr [''sub_a'', ''sub_b'']
      \<and> 1 < length (remdups [''sub_a'', ''sub_b''])"
    by (simp add: ambiguous_selected ambiguous_eligible)
  have s: "(Some ''s1'', Some ''XYZ'')
        \<in> set (smithsonian_select array_postgres ''smithsonian'' [unknown_unit_row])
      \<and> find_source smithsonian_subs (Some ''XYZ'') = None"
    by (simp add: unknown_unit_selected)
  have p: "plain ''smithsonian'' \<and> plain_names smithsonian_subs
      \<and> plain_foreign_ids ''smithsonian'' [unknown_unit_row]"
    by (simp add: unknown_unit_plain)
  from reclassifier_raises_on_ambiguous_or_unknown
    [where fid = "Some ''e1''" and t = "''[A, B]''" and sub_provider = "''sub_a''"
       and pg = array_postgres and d = "''europeana''" and sp = europeana_subs
       and img = "[ambiguous_row]" and py = plain_python
       and data_providers = "JArray [JString ''A'', JString ''B'']"
       and es = "[''sub_a'', ''sub_b'']" and fid' = "Some ''s1''" and unit_code = "Some ''XYZ''"
       and d' = "''smithsonian''" and img' = "[unknown_unit_row]" and sp' = smithsonian_subs]
    e s p
  have "snd (update_europeana_sub_providers array_postgres plain_python ''europeana''
            europeana_subs [ambiguous_row]) \<noteq> None"
    and "snd (update_smithsonian_sub_providers array_postgres ''smithsonian''
            smithsonian_subs [unknown_unit_row]) = Some PyException"
    by blast+
  then show ?thesis
    using ambiguous_selected ambiguous_eligible(2) unknown_unit_selected by blast
qed

section \<open>The passes run twice\<close>

lemma hits_source [simp]: "hits pg d fid (row\<lparr> source := x \<rparr>) = hits pg d fid row"
  by (simp add: hits_def)


lemma row_after_Nil [simp]: "row_after pg d [] row = row"
  by (simp add: row_after_def)

lemma row_after_Cons [simp]:
  "row_after pg d ((fid, sub) # us) row =
     row_after pg d us (if hits pg d fid row then row\<lparr> source := Some sub \<rparr> else row)"
  by (simp add: row_after_def)


lemma row_after_only_source_all:
  "\<forall>row. (row_after pg d us row)\<lparr> source := z \<rparr> = row\<lparr> source := z \<rparr>"
proof (induction us)
  case Nil
  then show ?case by simp
next
  case (Cons u us)
  obtain fid sub where u: "u = (fid, sub)" by (cases u)
  show ?case
    using Cons.IH by (simp add: u)
qed

lemma row_after_only_source: "(row_after pg d us row)\<lparr> source := z \<rparr> = row\<lparr> source := z \<rparr>"
  using row_after_only_source_all by blast





lemma row_after_columns [simp]:
  "foreign_id (row_after pg d us row) = foreign_id row"
  "provider (row_after pg d us row) = provider row"
  "creator_url (row_after pg d us row) = creator_url row"
  "meta_data (row_after pg d us row) = meta_data row"
proof -
  have eq: "row_after pg d us row = row\<lparr> source := source (row_after pg d us row) \<rparr>"
    using row_after_only_source [where pg = pg and d = d and us = us and row = row
          and z = "source (row_after pg d us row)"] by simp
  show "foreign_id (row_after pg d us row) = foreign_id row"
    by (subst eq) simp
  show "provider (row_after pg d us row) = provider row"
    by (subst eq) simp
  show "creator_url (row_after pg d us row) = creator_url row"
    by (subst eq) simp
  show "meta_data (row_after pg d us row) = meta_data row"
    by (subst eq) simp
qed















lemma index_key_source [simp]: "index_key pg (row\<lparr> source := x \<rparr>) = index_key pg row"
  by (simp add: index_key_def split: option.splits)



















section \<open>The normaliser on a URL without a width\<close>

lemma process_image_data_missing_width:
  assumes "truthy (py_get image_data ''freecc0'' JNull)"
    and "truthy (py_get image_data ''url'' JNull)"
    and "py_get image_data ''image_opengraph'' JNull = JString u" and "u \<noteq> []"
    and "map_of (urlparse_query py u) ''w'' = None"
  shows "process_image_data py add_item image_data = Inl IndexError"
  using assms
  by (simp add: process_image_data_def get_foreign_id_url_def get_image_properties_def
      first_query_value_def)

text \<open>
  Claim C10 says that \<^verbatim>\<open>_process_image_data\<close> never raises, also when the
  \<^verbatim>\<open>image_opengraph\<close> URL lacks the parameter \<^verbatim>\<open>w\<close> or \<^verbatim>\<open>h\<close>. The code gives
  \<^verbatim>\<open>get\<close> the default \<^verbatim>\<open>[]\<close> for a missing parameter and then takes element 0 of
  it: on a payload with a landing page and a media URL without \<^verbatim>\<open>w\<close> the call raises
  \<^verbatim>\<open>IndexError\<close>.
\<close>

theorem process_image_data_raises_index_error:
  "process_image_data plain_python (\<lambda>stored. 1 :: nat) payload_without_width = Inl IndexError"
  by (rule process_image_data_missing_width [where u = "''https://img.rawpixel.com/1.jpg?h=630''"])
     (simp_all add: payload_without_width_def py_get_def plain_python_def)

end
